theory Spec2Isabelle
  imports Complex_Main "HOL-Library.Sublist" "HOL-Library.Multiset" "HOL-Library.Product_Lexorder"
begin

section \<open>Python values used by travelbuddy.py\<close>

text \<open>
  A Python \<open>dict\<close> keeps its keys in insertion order. It is modelled as an association
  list with distinct keys: \<open>d[k] = v\<close> replaces the value in place when \<open>k\<close> is present
  and appends the pair otherwise.
\<close>

type_synonym ('k, 'v) dict = "('k \<times> 'v) list"

fun dict_set :: "'k \<Rightarrow> 'v \<Rightarrow> ('k, 'v) dict \<Rightarrow> ('k, 'v) dict" where
  "dict_set k v [] = [(k, v)]"
| "dict_set k v ((k', v') # kvs) =
     (if k' = k then (k, v) # kvs else (k', v') # dict_set k v kvs)"

definition dict_get :: "('k, 'v) dict \<Rightarrow> 'k \<Rightarrow> 'v option" where
  "dict_get d k = map_of d k"

definition dict_values :: "('k, 'v) dict \<Rightarrow> 'v list" where
  "dict_values d = map snd d"

text \<open>\<open>d.update(other)\<close>: the pairs of \<open>other\<close> are stored one after the other.\<close>

definition dict_update :: "('k, 'v) dict \<Rightarrow> ('k, 'v) dict \<Rightarrow> ('k, 'v) dict" where
  "dict_update d other = foldl (\<lambda>acc (k, v). dict_set k v acc) d other"

text \<open>
  The slice \<open>xs[:k]\<close>: a negative bound counts from the end of the list, and a bound
  outside the list is clipped.
\<close>

definition slice_to :: "int \<Rightarrow> 'a list \<Rightarrow> 'a list" where
  "slice_to k xs =
     (if k < 0 then take (length xs - nat (- k)) xs else take (nat k) xs)"

datatype error = ValueError | TypeError | OverflowError | JSONDecodeError

subsection \<open>Floats\<close>

text \<open>
  A Python float is a number, an infinity or NaN. \<open>a < b\<close> and \<open>a <= b\<close> are false as soon
  as one side is NaN; on the other values they are the order of the extended number
  line, which \<open>rank\<close> embeds into a linear order.
\<close>

datatype pyfloat = NegInf | Num rat | PosInf | NaN

fun rank :: "pyfloat \<Rightarrow> nat \<times> rat" where
  "rank NegInf = (0, 0)"
| "rank (Num r) = (1, r)"
| "rank PosInf = (2, 0)"
| "rank NaN = (3, 0)"

definition float_lt :: "pyfloat \<Rightarrow> pyfloat \<Rightarrow> bool" where
  "float_lt a b = (a \<noteq> NaN \<and> b \<noteq> NaN \<and> rank a < rank b)"

definition float_le :: "pyfloat \<Rightarrow> pyfloat \<Rightarrow> bool" where
  "float_le a b = (a \<noteq> NaN \<and> b \<noteq> NaN \<and> rank a \<le> rank b)"

subsection \<open>Sorting\<close>

text \<open>
  \<open>list.sort\<close> compares with \<open><\<close> only. CPython's algorithm on a list of fewer than 64
  elements: \<open>count_run\<close> finds the run the list starts with, non-descending or strictly
  descending (then reversed), and \<open>binarysort\<close> inserts the remaining elements one by
  one at the place a binary search gives.
\<close>

function bisect :: "('a \<Rightarrow> pyfloat) \<Rightarrow> 'a \<Rightarrow> 'a list \<Rightarrow> nat \<Rightarrow> nat \<Rightarrow> nat" where
  "bisect key pivot xs l r =
     (if l < r
      then (let p = l + (r - l) div 2
            in if float_lt (key pivot) (key (xs ! p))
               then bisect key pivot xs l p
               else bisect key pivot xs (p + 1) r)
      else l)"
  by pat_completeness auto
termination
  by (relation "measure (\<lambda>(key, pivot, xs, l, r). r - l)") auto

fun binarysort :: "('a \<Rightarrow> pyfloat) \<Rightarrow> 'a list \<Rightarrow> 'a list \<Rightarrow> 'a list" where
  "binarysort key sorted_part [] = sorted_part"
| "binarysort key sorted_part (pivot # rest) =
     (let l = bisect key pivot sorted_part 0 (length sorted_part)
      in binarysort key (take l sorted_part @ pivot # drop l sorted_part) rest)"

fun ascending_run :: "('a \<Rightarrow> pyfloat) \<Rightarrow> 'a list \<Rightarrow> nat" where
  "ascending_run key (x # y # zs) =
     (if float_lt (key y) (key x) then 1 else 1 + ascending_run key (y # zs))"
| "ascending_run key xs = length xs"

fun descending_run :: "('a \<Rightarrow> pyfloat) \<Rightarrow> 'a list \<Rightarrow> nat" where
  "descending_run key (x # y # zs) =
     (if float_lt (key y) (key x) then 1 + descending_run key (y # zs) else 1)"
| "descending_run key xs = length xs"

definition count_run :: "('a \<Rightarrow> pyfloat) \<Rightarrow> 'a list \<Rightarrow> nat \<times> bool" where
  "count_run key xs =
     (case xs of
        x # y # zs \<Rightarrow>
          if float_lt (key y) (key x) then (descending_run key xs, True)
          else (ascending_run key xs, False)
      | _ \<Rightarrow> (length xs, False))"

definition listsort :: "('a \<Rightarrow> pyfloat) \<Rightarrow> 'a list \<Rightarrow> 'a list" where
  "listsort key xs =
     (let (n, descending) = count_run key xs;
          first_run = (if descending then rev (take n xs) else take n xs)
      in binarysort key first_run (drop n xs))"

text \<open>
  \<open>sorted(xs, key=..., reverse=...)\<close>. When no key is NaN, \<open><\<close> is a linear order on the
  keys and the result is the stable ascending sort, whatever the length of the list.
  When a key is NaN the result is what the algorithm above computes (from 64 elements
  on CPython merges several runs, which is not modelled). With \<open>reverse=True\<close> the list is
  reversed before and after the sort, which gives descending keys and keeps elements
  with equal keys in their original order.
\<close>

definition list_sort :: "('a \<Rightarrow> pyfloat) \<Rightarrow> 'a list \<Rightarrow> 'a list" where
  "list_sort key xs =
     (if \<forall>x \<in> set xs. key x \<noteq> NaN then sort_key (\<lambda>x. rank (key x)) xs
      else listsort key xs)"

definition sorted_py :: "('a \<Rightarrow> pyfloat) \<Rightarrow> bool \<Rightarrow> 'a list \<Rightarrow> 'a list" where
  "sorted_py key reverse xs =
     (if reverse then rev (list_sort key (rev xs)) else list_sort key xs)"

subsection \<open>Dates and times\<close>

text \<open>
  A \<open>datetime\<close> is its wall-clock time in microseconds since 0001-01-01T00:00 and, when
  it is aware, its offset from UTC in microseconds. A \<open>date\<close> is its proleptic
  Gregorian day number (\<open>toordinal()\<close>, day 1 is 0001-01-01). \<open>date.isoformat\<close> prints
  different dates differently, so a dictionary keyed by \<open>day.date().isoformat()\<close> is
  represented keyed by the day number.
\<close>

record datetime =
  wall :: int
  utcoffset :: "int option"

type_synonym date = int

definition day_us :: int where
  "day_us = 86400000000"

definition max_ordinal :: int where
  "max_ordinal = 3652059"

definition valid_datetime :: "datetime \<Rightarrow> bool" where
  "valid_datetime t = (0 \<le> wall t \<and> wall t < max_ordinal * day_us)"

text \<open>
  \<open>a - b\<close> in microseconds: between two naive values the difference of the wall clocks,
  between two aware values the difference of the instants; mixing both raises
  \<open>TypeError\<close>. \<open>timedelta.days\<close> rounds towards minus infinity.
\<close>

definition sub_datetime :: "datetime \<Rightarrow> datetime \<Rightarrow> error + int" where
  "sub_datetime a b =
     (case (utcoffset a, utcoffset b) of
        (None, None) \<Rightarrow> Inr (wall a - wall b)
      | (Some oa, Some ob) \<Rightarrow> Inr ((wall a - oa) - (wall b - ob))
      | _ \<Rightarrow> Inl TypeError)"

definition timedelta_days :: "int \<Rightarrow> int" where
  "timedelta_days delta = delta div day_us"

text \<open>\<open>t + timedelta(days=d)\<close>; a result outside the years 1 to 9999 raises \<open>OverflowError\<close>.\<close>

definition add_days :: "datetime \<Rightarrow> int \<Rightarrow> error + datetime" where
  "add_days t d =
     (let w = wall t + d * day_us
      in if 0 \<le> w \<and> w < max_ordinal * day_us then Inr (t\<lparr>wall := w\<rparr>) else Inl OverflowError)"

definition date_of :: "datetime \<Rightarrow> date" where
  "date_of t = wall t div day_us + 1"

text \<open>
  \<open>datetime.fromisoformat\<close> belongs to the standard library, and the strings it accepts
  differ between Python versions. The functions below take it as the argument \<open>parse\<close>,
  and every theorem holds for every such function. For the examples, \<open>parse_example\<close>
  gives its values on strings of the forms \<open>YYYY-MM-DD\<close>, \<open>YYYY-MM-DDTHH:MM\<close> and
  \<open>YYYY-MM-DDTHH:MM+HH:MM\<close>, with the day number computed as \<open>_ymd2ord\<close> of the
  standard library does.
\<close>

definition digit :: "char \<Rightarrow> int option" where
  "digit c = (if c \<in> set ''0123456789'' then Some (int (of_char c) - 48) else None)"

fun digits :: "string \<Rightarrow> int \<Rightarrow> int option" where
  "digits [] acc = Some acc"
| "digits (c # cs) acc =
     (case digit c of None \<Rightarrow> None | Some v \<Rightarrow> digits cs (10 * acc + v))"

definition is_leap :: "int \<Rightarrow> bool" where
  "is_leap y = (y mod 4 = 0 \<and> (y mod 100 \<noteq> 0 \<or> y mod 400 = 0))"

definition days_in_month :: "int \<Rightarrow> int \<Rightarrow> int" where
  "days_in_month y m =
     (if m = 2 then (if is_leap y then 29 else 28)
      else if m \<in> {4, 6, 9, 11} then 30 else 31)"

definition days_before_year :: "int \<Rightarrow> int" where
  "days_before_year y =
     (let y1 = y - 1 in y1 * 365 + y1 div 4 - y1 div 100 + y1 div 400)"

definition days_before_month :: "int \<Rightarrow> int \<Rightarrow> int" where
  "days_before_month y m = (\<Sum>k \<leftarrow> [1..m - 1]. days_in_month y k)"

definition ymd2ord :: "int \<Rightarrow> int \<Rightarrow> int \<Rightarrow> date" where
  "ymd2ord y m d = days_before_year y + days_before_month y m + d"

definition parse_date :: "string \<Rightarrow> date option" where
  "parse_date s =
     (case s of
        [y1, y2, y3, y4, s1, m1, m2, s2, d1, d2] \<Rightarrow>
          (case (digits [y1, y2, y3, y4] 0, digits [m1, m2] 0, digits [d1, d2] 0) of
             (Some y, Some m, Some d) \<Rightarrow>
               if s1 = CHR ''-'' \<and> s2 = CHR ''-'' \<and> 1 \<le> y \<and> 1 \<le> m \<and> m \<le> 12
                  \<and> 1 \<le> d \<and> d \<le> days_in_month y m
               then Some (ymd2ord y m d) else None
           | _ \<Rightarrow> None)
      | _ \<Rightarrow> None)"

definition parse_time :: "string \<Rightarrow> int option" where
  "parse_time s =
     (case s of
        [h1, h2, s1, m1, m2] \<Rightarrow>
          (case (digits [h1, h2] 0, digits [m1, m2] 0) of
             (Some h, Some m) \<Rightarrow>
               if s1 = CHR '':'' \<and> h \<le> 23 \<and> m \<le> 59
               then Some ((h * 60 + m) * 60000000) else None
           | _ \<Rightarrow> None)
      | _ \<Rightarrow> None)"

definition parse_offset :: "string \<Rightarrow> int option" where
  "parse_offset s =
     (case s of
        [sign, h1, h2, s1, m1, m2] \<Rightarrow>
          (case (digits [h1, h2] 0, digits [m1, m2] 0) of
             (Some h, Some m) \<Rightarrow>
               if (sign = CHR ''+'' \<or> sign = CHR ''-'') \<and> s1 = CHR '':'' \<and> h \<le> 23 \<and> m \<le> 59
               then Some ((if sign = CHR ''-'' then - 1 else 1) * ((h * 60 + m) * 60000000))
               else None
           | _ \<Rightarrow> None)
      | _ \<Rightarrow> None)"

definition parse_example :: "string \<Rightarrow> error + datetime" where
  "parse_example s =
     (case parse_date (take 10 s) of
        None \<Rightarrow> Inl ValueError
      | Some ordinal \<Rightarrow>
          if length s = 10 then Inr \<lparr>wall = (ordinal - 1) * day_us, utcoffset = None\<rparr>
          else (case parse_time (take 5 (drop 11 s)) of
                  None \<Rightarrow> Inl ValueError
                | Some us \<Rightarrow>
                    if length s = 16
                    then Inr \<lparr>wall = (ordinal - 1) * day_us + us, utcoffset = None\<rparr>
                    else (case parse_offset (drop 16 s) of
                            None \<Rightarrow> Inl ValueError
                          | Some offset \<Rightarrow>
                              Inr \<lparr>wall = (ordinal - 1) * day_us + us,
                                    utcoffset = Some offset\<rparr>)))"

section \<open>Places and the search tool\<close>

text \<open>
  A place is the dictionary with the six keys that \<open>ResearchAgent.run\<close> emits. A hit of
  the search tool is place-shaped and may carry further keys. Ratings and coordinates
  are floats.
\<close>

record place =
  name :: string
  description :: string
  rating :: pyfloat
  lat :: pyfloat
  lon :: pyfloat
  hours :: string

record hit = place +
  extras :: "(string, string) dict"

definition demo_places :: "hit list" where
  "demo_places =
     [\<lparr>name = ''City Museum'', description = ''Popular museum'', rating = Num (46 / 10),
       lat = Num (407794 / 10000), lon = Num (- 739632 / 10000), hours = ''09:00-17:00'',
       extras = []\<rparr>,
      \<lparr>name = ''Central Park'', description = ''Large urban park'', rating = Num (48 / 10),
       lat = Num (40785091 / 1000000), lon = Num (- 73968285 / 1000000), hours = ''24/7'',
       extras = []\<rparr>,
      \<lparr>name = ''Grand Market'', description = ''Local market'', rating = Num (45 / 10),
       lat = Num (407527 / 10000), lon = Num (- 739772 / 10000), hours = ''08:00-20:00'',
       extras = []\<rparr>,
      \<lparr>name = ''Art Gallery'', description = ''Contemporary art'', rating = Num (44 / 10),
       lat = Num (407614 / 10000), lon = Num (- 739776 / 10000), hours = ''10:00-18:00'',
       extras = []\<rparr>]"

definition search_tool_stub :: "string \<Rightarrow> int \<Rightarrow> hit list" where
  "search_tool_stub query top_k = slice_to top_k demo_places"

section \<open>ResearchAgent\<close>

definition compact_place :: "hit \<Rightarrow> place" where
  "compact_place p =
     \<lparr>name = name p, description = description p, rating = rating p,
      lat = lat p, lon = lon p, hours = hours p\<rparr>"

definition collect :: "(string \<Rightarrow> int \<Rightarrow> hit list) \<Rightarrow> string \<Rightarrow> string list \<Rightarrow> int \<Rightarrow> hit list" where
  "collect search_tool destination interests top_k_each =
     foldl (\<lambda>results interest.
              results @ search_tool (destination @ '' top '' @ interest) top_k_each)
       [] interests"

definition dedupe :: "hit list \<Rightarrow> (string, hit) dict" where
  "dedupe results = foldl (\<lambda>unique r. dict_set (name r) r unique) [] results"

definition run :: "(string \<Rightarrow> int \<Rightarrow> hit list) \<Rightarrow> string \<Rightarrow> string list \<Rightarrow> int \<Rightarrow> place list" where
  "run search_tool destination interests top_k_each =
     (let results = collect search_tool destination interests top_k_each;
          unique = dedupe results;
          sorted_places = sorted_py rating True (dict_values unique)
      in map compact_place (slice_to 20 sorted_places))"

section \<open>PlannerAgent\<close>

record ItineraryItem =
  day :: date
  time_range :: string
  place :: place

type_synonym itinerary = "(date, ItineraryItem list) dict"

definition time_blocks :: "string list" where
  "time_blocks = [''09:00-12:00'', ''12:30-15:00'', ''15:30-18:00'']"

text \<open>\<open>itinerary[day_str].append(item)\<close>; the key has just been stored.\<close>

definition dict_append :: "'k \<Rightarrow> 'v \<Rightarrow> ('k, 'v list) dict \<Rightarrow> ('k, 'v list) dict" where
  "dict_append k x d = map (\<lambda>(k', xs). if k' = k then (k', xs @ [x]) else (k', xs)) d"

text \<open>
  The inner loop \<open>for slot in range(3)\<close> with its \<open>break\<close>, and the outer loop
  \<open>for d in range(days)\<close>; both carry the itinerary and the cursor \<open>index\<close>. The outer
  loop stops with the error of \<open>sd + timedelta(days=d)\<close> when that raises.
\<close>

fun slot_loop :: "place list \<Rightarrow> date \<Rightarrow> nat list \<Rightarrow> itinerary \<times> nat \<Rightarrow> itinerary \<times> nat" where
  "slot_loop places day_str [] (itinerary, index) = (itinerary, index)"
| "slot_loop places day_str (slot # slots) (itinerary, index) =
     (if index \<ge> length places then (itinerary, index)
      else slot_loop places day_str slots
             (dict_append day_str
                \<lparr>day = day_str, time_range = time_blocks ! slot, place = places ! index\<rparr>
                itinerary,
              index + 1))"

fun day_loop ::
  "place list \<Rightarrow> datetime \<Rightarrow> nat list \<Rightarrow> itinerary \<times> nat \<Rightarrow> error + itinerary \<times> nat" where
  "day_loop places sd [] (itinerary, index) = Inr (itinerary, index)"
| "day_loop places sd (d # ds) (itinerary, index) =
     (case add_days sd (int d) of
        Inl e \<Rightarrow> Inl e
      | Inr day_dt \<Rightarrow>
          (let day_str = date_of day_dt
           in day_loop places sd ds
                (slot_loop places day_str [0 ..< 3] (dict_set day_str [] itinerary, index))))"

definition build_itinerary ::
  "(string \<Rightarrow> error + datetime) \<Rightarrow> place list \<Rightarrow> string \<Rightarrow> string \<Rightarrow> error + itinerary" where
  "build_itinerary parse places start end' =
     (case parse start of
        Inl e \<Rightarrow> Inl e
      | Inr sd \<Rightarrow>
          (case parse end' of
             Inl e \<Rightarrow> Inl e
           | Inr ed \<Rightarrow>
               (case sub_datetime ed sd of
                  Inl e \<Rightarrow> Inl e
                | Inr delta \<Rightarrow>
                    (let days = timedelta_days delta + 1
                     in case day_loop places sd [0 ..< nat days] ([], 0) of
                          Inl e \<Rightarrow> Inl e
                        | Inr (itinerary, index) \<Rightarrow> Inr itinerary))))"

section \<open>MemoryBank and TravelBuddy\<close>

subsection \<open>Preference values and JSON\<close>

text \<open>
  The keys and values of a preference dictionary: a key is a string, an integer or
  \<open>None\<close>; a value is a scalar, a list, a tuple or a dictionary of values, or \<open>PyOther\<close>,
  an object that \<open>json\<close> cannot serialise (a set, say). A JSON value is what \<open>json.dump\<close>
  writes and \<open>json.load\<close> reads; the text between the two is not modelled.
\<close>

datatype pykey = KStr string | KInt int | KNone

datatype pyval =
    PyNone
  | PyBool bool
  | PyInt int
  | PyFloat pyfloat
  | PyStr string
  | PyList "pyval list"
  | PyTuple "pyval list"
  | PyDict "(pykey \<times> pyval) list"
  | PyOther

datatype json =
    JNull
  | JBool bool
  | JInt int
  | JFloat pyfloat
  | JStr string
  | JArr "json list"
  | JObj "(string \<times> json) list"

type_synonym prefs = "(pykey, pyval) dict"
type_synonym json_object = "(string \<times> json) list"

function show_nat :: "nat \<Rightarrow> string" where
  "show_nat n =
     (if n < 10 then [char_of (48 + n)]
      else show_nat (n div 10) @ [char_of (48 + n mod 10)])"
  by pat_completeness auto
termination
  by (relation "measure id") auto

definition show_int :: "int \<Rightarrow> string" where
  "show_int i = (if i < 0 then CHR ''-'' # show_nat (nat (- i)) else show_nat (nat i))"

text \<open>The key of a JSON object: a string as it is, an integer in decimal, \<open>None\<close> as null.\<close>

fun key_string :: "pykey \<Rightarrow> string" where
  "key_string (KStr s) = s"
| "key_string (KInt i) = show_int i"
| "key_string KNone = ''null''"

text \<open>
  \<open>json.dump\<close> on a value: \<open>None\<close> when it raises \<open>TypeError\<close>. A tuple is written as an
  array, a dictionary as an object with one member per item.
\<close>

primrec encode :: "pyval \<Rightarrow> json option" where
  "encode PyNone = Some JNull"
| "encode (PyBool b) = Some (JBool b)"
| "encode (PyInt i) = Some (JInt i)"
| "encode (PyFloat x) = Some (JFloat x)"
| "encode (PyStr s) = Some (JStr s)"
| "encode (PyList vs) = map_option JArr (those (map encode vs))"
| "encode (PyTuple vs) = map_option JArr (those (map encode vs))"
| "encode (PyDict d) =
     map_option JObj
       (those (map (\<lambda>(k, j). map_option (Pair k) j) (map (map_prod key_string encode) d)))"
| "encode PyOther = None"

definition encode_items :: "prefs \<Rightarrow> json_object option" where
  "encode_items d =
     those (map (\<lambda>(k, j). map_option (Pair k) j) (map (map_prod key_string encode) d))"

text \<open>
  \<open>json.load\<close> on a JSON value: an array becomes a list, an object a dictionary with
  string keys, its members stored one after the other.
\<close>

primrec decode :: "json \<Rightarrow> pyval" where
  "decode JNull = PyNone"
| "decode (JBool b) = PyBool b"
| "decode (JInt i) = PyInt i"
| "decode (JFloat x) = PyFloat x"
| "decode (JStr s) = PyStr s"
| "decode (JArr js) = PyList (map decode js)"
| "decode (JObj ms) =
     PyDict (foldl (\<lambda>acc (k, v). dict_set k v acc) []
               (map (map_prod KStr decode) ms))"

definition decode_items :: "json_object \<Rightarrow> prefs" where
  "decode_items ms =
     foldl (\<lambda>acc (k, v). dict_set k v acc) [] (map (map_prod KStr decode) ms)"

subsection \<open>Sessions, trip records and the heap\<close>

text \<open>
  \<open>plan_trip\<close> mutates dictionaries and lists that are shared between the session, the
  store and the trip records, so these objects live in an explicit heap. A preference
  dictionary and a trip list are objects with an address; a session dictionary and a
  trip record are never written to after their creation and are represented by the
  values and references they hold.

  A trip record and a session have the type of what they hold as a parameter: in
  memory \<open>'p\<close> and \<open>'t\<close> are addresses; in the contents of a session they are the
  dictionaries and lists themselves; in a file they are JSON objects and lists.
\<close>

type_synonym addr = nat

record 'p trip =
  destination :: string
  start_date :: string
  end_date :: string
  itinerary :: itinerary
  trip_preferences :: 'p
  timestamp :: string

record ('p, 't) session =
  preferences :: 'p
  trips :: 't

type_synonym session_ref = "(addr, addr) session"
type_synonym session_doc = "(prefs, prefs trip list) session"
type_synonym session_json = "(json_object, json_object trip list) session"
type_synonym document = "(string, session_json) dict"

text \<open>
  A file holds the document that \<open>json.dump\<close> wrote, or the beginning of a text that
  \<open>json.dump\<close> left behind when it raised.
\<close>

datatype file_content = Document document | Partial

record world =
  dicts :: "addr \<Rightarrow> prefs"
  lists :: "addr \<Rightarrow> addr trip list"
  fresh :: addr
  files :: "string \<Rightarrow> file_content option"

definition new_dict :: "prefs \<Rightarrow> world \<Rightarrow> addr \<times> world" where
  "new_dict d w = (fresh w, w\<lparr>dicts := (dicts w)(fresh w := d), fresh := Suc (fresh w)\<rparr>)"

definition new_list :: "addr trip list \<Rightarrow> world \<Rightarrow> addr \<times> world" where
  "new_list ts w = (fresh w, w\<lparr>lists := (lists w)(fresh w := ts), fresh := Suc (fresh w)\<rparr>)"

subsection \<open>Writing and reading the store\<close>

text \<open>The contents of a session and of the store: every reference followed.\<close>

definition dump_trip :: "world \<Rightarrow> addr trip \<Rightarrow> prefs trip" where
  "dump_trip w t =
     \<lparr>destination = destination t, start_date = start_date t, end_date = end_date t,
      itinerary = itinerary t, trip_preferences = dicts w (trip_preferences t),
      timestamp = timestamp t\<rparr>"

definition dump_session :: "world \<Rightarrow> session_ref \<Rightarrow> session_doc" where
  "dump_session w s =
     \<lparr>preferences = dicts w (preferences s),
      trips = map (dump_trip w) (lists w (trips s))\<rparr>"

definition dump_store :: "world \<Rightarrow> (string, session_ref) dict \<Rightarrow> (string, session_doc) dict" where
  "dump_store w d = map (\<lambda>(user_id, s). (user_id, dump_session w s)) d"

definition encode_trip :: "prefs trip \<Rightarrow> json_object trip option" where
  "encode_trip t =
     map_option
       (\<lambda>p. \<lparr>destination = destination t, start_date = start_date t, end_date = end_date t,
             itinerary = itinerary t, trip_preferences = p, timestamp = timestamp t\<rparr>)
       (encode_items (trip_preferences t))"

definition encode_session :: "session_doc \<Rightarrow> session_json option" where
  "encode_session s =
     (case (encode_items (preferences s), those (map encode_trip (trips s))) of
        (Some p, Some ts) \<Rightarrow> Some \<lparr>preferences = p, trips = ts\<rparr>
      | _ \<Rightarrow> None)"

definition encode_store :: "(string, session_doc) dict \<Rightarrow> document option" where
  "encode_store d =
     those (map (\<lambda>(user_id, s). map_option (Pair user_id) (encode_session s)) d)"

definition load_trip :: "json_object trip \<Rightarrow> world \<Rightarrow> addr trip \<times> world" where
  "load_trip t w =
     (let (a, w') = new_dict (decode_items (trip_preferences t)) w
      in (\<lparr>destination = destination t, start_date = start_date t, end_date = end_date t,
           itinerary = itinerary t, trip_preferences = a, timestamp = timestamp t\<rparr>, w'))"

fun load_trips :: "json_object trip list \<Rightarrow> world \<Rightarrow> addr trip list \<times> world" where
  "load_trips [] w = ([], w)"
| "load_trips (t # ts) w =
     (let (t', w1) = load_trip t w; (ts', w2) = load_trips ts w1 in (t' # ts', w2))"

definition load_session :: "session_json \<Rightarrow> world \<Rightarrow> session_ref \<times> world" where
  "load_session s w =
     (let (p, w1) = new_dict (decode_items (preferences s)) w;
          (ts, w2) = load_trips (trips s) w1;
          (l, w3) = new_list ts w2
      in (\<lparr>preferences = p, trips = l\<rparr>, w3))"

fun load_store :: "document \<Rightarrow> (string, session_ref) dict \<Rightarrow> world \<Rightarrow> (string, session_ref) dict \<times> world" where
  "load_store [] d w = (d, w)"
| "load_store ((user_id, s) # rest) d w =
     (let (s', w') = load_session s w in load_store rest (dict_set user_id s' d) w')"

text \<open>
  \<open>read_json\<close>: a missing file gives the empty store; a file that holds no complete JSON
  text makes \<open>json.load\<close> raise.
\<close>

definition read_json :: "string \<Rightarrow> world \<Rightarrow> (error + (string, session_ref) dict) \<times> world" where
  "read_json path w =
     (case files w path of
        None \<Rightarrow> (Inr [], w)
      | Some Partial \<Rightarrow> (Inl JSONDecodeError, w)
      | Some (Document doc) \<Rightarrow> (let (d, w') = load_store doc [] w in (Inr d, w')))"

text \<open>
  \<open>write_json\<close>: the file is opened for writing and \<open>json.dump\<close> writes the store piece
  by piece; when it meets a value it cannot serialise it raises \<open>TypeError\<close> and the
  file keeps what was written so far.
\<close>

definition write_json :: "string \<Rightarrow> (string, session_ref) dict \<Rightarrow> world \<Rightarrow> (error + unit) \<times> world" where
  "write_json path d w =
     (case encode_store (dump_store w d) of
        None \<Rightarrow> (Inl TypeError, w\<lparr>files := (files w)(path \<mapsto> Partial)\<rparr>)
      | Some doc \<Rightarrow> (Inr (), w\<lparr>files := (files w)(path \<mapsto> Document doc)\<rparr>))"

subsection \<open>MemoryBank\<close>

record MemoryBank =
  path :: string
  data :: "(string, session_ref) dict"

definition MemoryBank_init :: "string \<Rightarrow> world \<Rightarrow> (error + MemoryBank) \<times> world" where
  "MemoryBank_init p w =
     (case read_json p w of
        (Inl e, w') \<Rightarrow> (Inl e, w')
      | (Inr d, w') \<Rightarrow> (Inr \<lparr>path = p, data = d\<rparr>, w'))"

text \<open>
  \<open>self.data.get(user_id, default)\<close>: the stored session itself when there is one;
  otherwise the default, a new dictionary holding a new empty dictionary and a new
  empty list. Every method returns the bank next to its result.
\<close>

definition get_session :: "string \<Rightarrow> MemoryBank \<Rightarrow> world \<Rightarrow> session_ref \<times> MemoryBank \<times> world" where
  "get_session user_id bank w =
     (case dict_get (data bank) user_id of
        Some s \<Rightarrow> (s, bank, w)
      | None \<Rightarrow>
          (let (p, w1) = new_dict [] w; (l, w2) = new_list [] w1
           in (\<lparr>preferences = p, trips = l\<rparr>, bank, w2)))"

definition save_session ::
  "string \<Rightarrow> session_ref \<Rightarrow> MemoryBank \<Rightarrow> world \<Rightarrow> (error + unit) \<times> MemoryBank \<times> world" where
  "save_session user_id s bank w =
     (let bank' = bank\<lparr>data := dict_set user_id s (data bank)\<rparr>;
          (r, w') = write_json (path bank') (data bank') w
      in (r, bank', w'))"

subsection \<open>TravelBuddy\<close>

record TravelBuddy =
  memory :: MemoryBank
  research :: "string \<Rightarrow> int \<Rightarrow> hit list"

record summary =
  summary_destination :: string
  days :: nat
  places_considered :: nat
  memory_saved :: bool

record plan_result =
  result_itinerary :: itinerary
  result_places :: "place list"
  result_session :: session_ref
  result_summary :: summary

definition TravelBuddy_init ::
  "string \<Rightarrow> (string \<Rightarrow> int \<Rightarrow> hit list) \<Rightarrow> world \<Rightarrow> (error + TravelBuddy) \<times> world" where
  "TravelBuddy_init store_path search_tool w =
     (case MemoryBank_init store_path w of
        (Inl e, w') \<Rightarrow> (Inl e, w')
      | (Inr bank, w') \<Rightarrow> (Inr \<lparr>memory = bank, research = search_tool\<rparr>, w'))"

text \<open>
  \<open>plan_trip\<close>. The clock reading \<open>datetime.utcnow().isoformat()\<close> is the argument
  \<open>now\<close>. When \<open>build_itinerary\<close> raises, the merge of the preferences has already been
  done in memory and nothing is saved; when \<open>save_session\<close> raises, the session is in
  the store in memory.
\<close>

definition plan_trip ::
  "(string \<Rightarrow> error + datetime) \<Rightarrow> string \<Rightarrow> string \<Rightarrow> string \<Rightarrow> string \<Rightarrow> string list \<Rightarrow>
   prefs option \<Rightarrow> string \<Rightarrow> TravelBuddy \<Rightarrow> world \<Rightarrow> (error + plan_result) \<times> TravelBuddy \<times> world" where
  "plan_trip parse user_id dest start end' interests prefs_arg now tb w =
     (let prefs = (case prefs_arg of None \<Rightarrow> [] | Some d \<Rightarrow> d);
          (s, bank, w1) = get_session user_id (memory tb) w;
          w2 = w1\<lparr>dicts := (dicts w1)
                 (preferences s := dict_update (dicts w1 (preferences s)) prefs)\<rparr>;
          places = run (research tb) dest interests 5;
          top_places = slice_to 12 places
      in case build_itinerary parse top_places start end' of
           Inl e \<Rightarrow> (Inl e, tb\<lparr>memory := bank\<rparr>, w2)
         | Inr itin \<Rightarrow>
             (let trip_record =
                    \<lparr>destination = dest, start_date = start, end_date = end',
                     itinerary = itin, trip_preferences = preferences s, timestamp = now\<rparr>;
                  w3 = w2\<lparr>lists := (lists w2)(trips s := lists w2 (trips s) @ [trip_record])\<rparr>
              in case save_session user_id s bank w3 of
                   (Inl e, bank', w4) \<Rightarrow> (Inl e, tb\<lparr>memory := bank'\<rparr>, w4)
                 | (Inr u, bank', w4) \<Rightarrow>
                     (Inr \<lparr>result_itinerary = itin, result_places = top_places,
                           result_session = s,
                           result_summary =
                             \<lparr>summary_destination = dest, days = length itin,
                              places_considered = length top_places, memory_saved = True\<rparr>\<rparr>,
                      tb\<lparr>memory := bank'\<rparr>, w4)))"

section \<open>Closed forms, example states and relations used in the proofs\<close>

subsection \<open>The schedule in closed form\<close>

text \<open>
  The visits of one day when the cursor stands at \<open>index\<close>, and the whole itinerary of
  \<open>n\<close> days from the date \<open>sd\<close> on: day \<open>d\<close> takes the places from position \<open>3 * d\<close> on.
\<close>

definition day_items :: "place list \<Rightarrow> date \<Rightarrow> nat \<Rightarrow> ItineraryItem list" where
  "day_items places day_str index =
     map (\<lambda>(t, p). \<lparr>day = day_str, time_range = t, place = p\<rparr>)
       (zip time_blocks (drop index places))"

definition plan :: "place list \<Rightarrow> date \<Rightarrow> nat \<Rightarrow> itinerary" where
  "plan places sd n = map (\<lambda>d. (sd + int d, day_items places (sd + int d) (3 * d))) [0 ..< n]"

subsection \<open>States for the examples\<close>

text \<open>
  Search tools for the examples. \<open>grid_tool\<close> gives five places per query, named after
  the query, all of the same rating; \<open>nan_tool\<close> gives three places, the second one with
  the rating NaN.
\<close>

definition grid_tool :: "string \<Rightarrow> int \<Rightarrow> hit list" where
  "grid_tool query top_k =
     slice_to top_k
       (map (\<lambda>c. \<lparr>name = query @ [c], description = [], rating = Num 4, lat = Num 0,
                    lon = Num 0, hours = [], extras = []\<rparr>) ''abcde'')"

definition nan_tool :: "string \<Rightarrow> int \<Rightarrow> hit list" where
  "nan_tool query top_k =
     slice_to top_k
       [\<lparr>name = ''A'', description = [], rating = Num 1, lat = Num 0, lon = Num 0,
         hours = [], extras = []\<rparr>,
        \<lparr>name = ''B'', description = [], rating = NaN, lat = Num 0, lon = Num 0,
         hours = [], extras = []\<rparr>,
        \<lparr>name = ''C'', description = [], rating = Num 3, lat = Num 0, lon = Num 0,
         hours = [], extras = []\<rparr>]"

definition empty_world :: world where
  "empty_world = \<lparr>dicts = (\<lambda>_. []), lists = (\<lambda>_. []), fresh = 0, files = (\<lambda>_. None)\<rparr>"

text \<open>
  Two calls of \<open>plan_trip\<close> for the same user on one \<open>TravelBuddy\<close>, started without a
  store file: the first with the preference diet = veg, the second with diet = vegan.
\<close>

definition after_first_trip :: "(TravelBuddy \<times> world) option" where
  "after_first_trip =
     (case TravelBuddy_init ''memory/memory_bank.json'' search_tool_stub empty_world of
        (Inl e, w0) \<Rightarrow> None
      | (Inr tb0, w0) \<Rightarrow>
          (case plan_trip parse_example ''u1'' ''New York'' ''2025-12-10'' ''2025-12-10''
                  [''museums''] (Some [(KStr ''diet'', PyStr ''veg'')])
                  ''2025-12-01T08:00:00'' tb0 w0 of
             (r1, tb1, w1) \<Rightarrow> Some (tb1, w1)))"

definition after_second_trip :: "(TravelBuddy \<times> world) option" where
  "after_second_trip =
     (case after_first_trip of
        None \<Rightarrow> None
      | Some (tb1, w1) \<Rightarrow>
          (case plan_trip parse_example ''u1'' ''New York'' ''2025-12-20'' ''2025-12-20''
                  [''parks''] (Some [(KStr ''diet'', PyStr ''vegan'')])
                  ''2025-12-02T08:00:00'' tb1 w1 of
             (r2, tb2, w2) \<Rightarrow> Some (tb2, w2)))"

text \<open>The trip history of a user as the store holds it in memory, and as the file holds it.\<close>

definition trips_in_memory :: "(TravelBuddy \<times> world) option \<Rightarrow> string \<Rightarrow> prefs trip list option" where
  "trips_in_memory st user_id =
     (case st of
        None \<Rightarrow> None
      | Some (tb, w) \<Rightarrow>
          map_option (\<lambda>s. trips (dump_session w s)) (dict_get (data (memory tb)) user_id))"

definition trips_in_file ::
  "(TravelBuddy \<times> world) option \<Rightarrow> string \<Rightarrow> json_object trip list option" where
  "trips_in_file st user_id =
     (case st of
        None \<Rightarrow> None
      | Some (tb, w) \<Rightarrow>
          (case files w (path (memory tb)) of
             Some (Document doc) \<Rightarrow> map_option trips (dict_get doc user_id)
           | _ \<Rightarrow> None))"

text \<open>
  A store with one user. In \<open>sample_world\<close> the session holds two preferences and one
  trip, whose record refers to the preference dictionary of the session; in
  \<open>tuple_world\<close> the preferences hold a tuple and an integer key.
\<close>

definition sample_bank :: MemoryBank where
  "sample_bank =
     \<lparr>path = ''memory/memory_bank.json'', data = [(''u1'', \<lparr>preferences = 0, trips = 1\<rparr>)]\<rparr>"

definition sample_world :: world where
  "sample_world =
     \<lparr>dicts = (\<lambda>_. [])(0 := [(KStr ''diet'', PyStr ''veg''), (KStr ''max_walk_km'', PyInt 5)]),
      lists = (\<lambda>_. [])
        (1 := [\<lparr>destination = ''Chennai'', start_date = ''2025-12-10'', end_date = ''2025-12-10'',
                 itinerary = [(739595, [])], trip_preferences = 0,
                 timestamp = ''2025-12-01T08:00:00''\<rparr>]),
      fresh = 2, files = (\<lambda>_. None)\<rparr>"


subsection \<open>Saving and loading again\<close>










text \<open>
  \<open>stable w w'\<close>: every object allocated in \<open>w\<close> is the same in \<open>w'\<close>. \<open>allocated w s\<close>:
  the session \<open>s\<close> and the records of its trip list refer to allocated objects only.
\<close>

definition stable :: "world \<Rightarrow> world \<Rightarrow> bool" where
  "stable w w' =
     (fresh w \<le> fresh w' \<and>
      (\<forall>a < fresh w. dicts w' a = dicts w a \<and> lists w' a = lists w a))"


section \<open>The scheduler computes the closed form\<close>

lemma dict_set_fresh: "k \<notin> fst ` set d \<Longrightarrow> dict_set k v d = d @ [(k, v)]"
  by (induction d) auto

lemma dict_append_last:
  "k \<notin> fst ` set d \<Longrightarrow> dict_append k x (d @ [(k, xs)]) = d @ [(k, xs @ [x])]"
  by (induction d) (auto simp: dict_append_def)

lemma day_items_beyond: "length places \<le> i \<Longrightarrow> day_items places dy i = []"
  by (simp add: day_items_def)

lemma slot_loop_day:
  assumes "dy \<notin> fst ` set it"
  shows "slot_loop places dy [0 ..< 3] (dict_set dy [] it, i) =
           (it @ [(dy, day_items places dy i)], min (i + 3) (max i (length places)))"
proof -
  have upt3: "[0 ..< 3] = [0, 1, 2]" by (simp add: upt_rec numeral_3_eq_3)
  consider "length places \<le> i" | "length places = i + 1" | "length places = i + 2"
    | "i + 3 \<le> length places" by linarith
  then show ?thesis
  proof cases
    case 1
    then show ?thesis using assms
      by (simp add: upt3 dict_set_fresh day_items_beyond)
  next
    case 2
    then have "drop i places = [places ! i]"
      by (metis Cons_nth_drop_Suc Suc_eq_plus1 drop_all lessI order_refl)
    then show ?thesis using assms 2
      by (simp add: upt3 dict_set_fresh dict_append_last day_items_def time_blocks_def)
  next
    case 3
    then have "drop i places = [places ! i, places ! (i + 1)]"
      by (metis (no_types, lifting) Cons_nth_drop_Suc Suc_eq_plus1 add_2_eq_Suc'
          add_Suc_right drop_all lessI less_SucI order_refl)
    then show ?thesis using assms 3
      by (simp add: upt3 dict_set_fresh dict_append_last day_items_def time_blocks_def)
  next
    case 4
    then obtain zs where "drop i places = places ! i # places ! (i + 1) # places ! (i + 2) # zs"
      by (metis (no_types, lifting) Cons_nth_drop_Suc Suc_eq_plus1 add_2_eq_Suc'
          add_Suc_right less_add_Suc1 less_le_trans numeral_3_eq_3 add.commute
          Suc_lessD plus_1_eq_Suc)
    then show ?thesis using assms 4
      by (simp add: upt3 dict_set_fresh dict_append_last day_items_def time_blocks_def)
  qed
qed

lemma day_us_pos: "0 < day_us"
  by (simp add: day_us_def)

lemma date_of_add_days:
  assumes "0 \<le> wall t" and "0 \<le> d" and "wall t + d * day_us < max_ordinal * day_us"
  shows "\<exists>t'. add_days t d = Inr t' \<and> date_of t' = date_of t + d"
proof -
  have "0 \<le> wall t + d * day_us" using assms day_us_pos by simp
  moreover have "(wall t + d * day_us) div day_us = wall t div day_us + d"
    using day_us_pos by simp
  ultimately show ?thesis using assms(3) by (simp add: add_days_def date_of_def Let_def)
qed

lemma day_loop_plan:
  assumes "i \<le> length places" and "\<forall>k \<in> fst ` set it. k < date_of sd + int a"
    and "0 \<le> wall sd" and "\<forall>d < b. wall sd + int d * day_us < max_ordinal * day_us"
  shows "day_loop places sd [a ..< b] (it, i) =
           Inr (it @ map (\<lambda>d. (date_of sd + int d,
                              day_items places (date_of sd + int d) (i + 3 * (d - a)))) [a ..< b],
                min (i + 3 * (b - a)) (length places))"
  using assms(1,2)
proof (induction "b - a" arbitrary: a it i)
  case 0
  then show ?case by simp
next
  case (Suc n)
  then have ab: "a < b" and n: "n = b - Suc a" by linarith+
  let ?s = "date_of sd"
  let ?dy = "?s + int a"
  let ?it = "it @ [(?dy, day_items places ?dy i)]"
  let ?i = "min (i + 3) (max i (length places))"
  have fresh: "?dy \<notin> fst ` set it" using Suc.prems(2) by auto
  have i': "?i \<le> length places" using Suc.prems(1) by simp
  have keys: "\<forall>k \<in> fst ` set ?it. k < ?s + int (Suc a)" using Suc.prems(2) by auto
  obtain t' where t': "add_days sd (int a) = Inr t'" and dt': "date_of t' = ?dy"
    using date_of_add_days [of sd "int a"] assms(3,4) ab by auto
  have rest: "\<And>d. d \<in> set [Suc a ..< b] \<Longrightarrow>
      day_items places (?s + int d) (?i + 3 * (d - Suc a)) =
      day_items places (?s + int d) (i + 3 * (d - a))"
  proof -
    fix d assume "d \<in> set [Suc a ..< b]"
    then have d: "Suc a \<le> d" by simp
    show "day_items places (?s + int d) (?i + 3 * (d - Suc a)) =
          day_items places (?s + int d) (i + 3 * (d - a))"
    proof (cases "i + 3 \<le> length places")
      case True
      then have "?i + 3 * (d - Suc a) = i + 3 * (d - a)" using d by simp
      then show ?thesis by simp
    next
      case False
      then have "length places \<le> ?i + 3 * (d - Suc a)" "length places \<le> i + 3 * (d - a)"
        using d Suc.prems(1) by auto
      then show ?thesis by (simp add: day_items_beyond)
    qed
  qed
  have step: "slot_loop places ?dy [0 ..< 3] (dict_set ?dy [] it, i) = (?it, ?i)"
    using slot_loop_day [OF fresh] .
  have "day_loop places sd [a ..< b] (it, i) = day_loop places sd (a # [Suc a ..< b]) (it, i)"
    using ab by (simp only: upt_conv_Cons)
  also have "\<dots> = day_loop places sd [Suc a ..< b] (?it, ?i)"
    by (simp only: day_loop.simps t' dt' sum.case Let_def step)
  also have "\<dots> = Inr (?it @ map (\<lambda>d. (?s + int d, day_items places (?s + int d) (?i + 3 * (d - Suc a)))) [Suc a ..< b],
            min (?i + 3 * (b - Suc a)) (length places))"
    using Suc.hyps(1) [OF n i' keys] .
  also have "map (\<lambda>d. (?s + int d, day_items places (?s + int d) (?i + 3 * (d - Suc a)))) [Suc a ..< b]
      = map (\<lambda>d. (?s + int d, day_items places (?s + int d) (i + 3 * (d - a)))) [Suc a ..< b]"
    using rest by (intro map_cong) auto
  also have "min (?i + 3 * (b - Suc a)) (length places) = min (i + 3 * (b - a)) (length places)"
    using ab Suc.prems(1) by auto
  finally show ?case using ab by (simp add: upt_conv_Cons)
qed

text \<open>
  The itinerary is the closed form when no day of the loop leaves the calendar.
\<close>

lemma build_itinerary_plan:
  assumes "parse start = Inr sd" and "parse end' = Inr ed"
    and "sub_datetime ed sd = Inr delta"
    and "0 \<le> wall sd"
    and "\<forall>d < nat (timedelta_days delta + 1). wall sd + int d * day_us < max_ordinal * day_us"
  shows "build_itinerary parse places start end' =
           Inr (plan places (date_of sd) (nat (timedelta_days delta + 1)))"
  using assms(1,2,3)
    day_loop_plan [of 0 places "[]" sd 0 "nat (timedelta_days delta + 1)", OF _ _ assms(4,5)]
  by (simp add: build_itinerary_def plan_def)

lemma same_offset_delta:
  "utcoffset ed = utcoffset sd \<Longrightarrow> sub_datetime ed sd = Inr (wall ed - wall sd)"
  by (cases "utcoffset sd") (simp_all add: sub_datetime_def)

lemma days_within:
  assumes "0 \<le> delta" and "wall sd + delta < max_ordinal * day_us"
  shows "\<forall>d < nat (timedelta_days delta + 1).
           wall sd + int d * day_us < max_ordinal * day_us"
proof (intro allI impI)
  fix d assume "d < nat (timedelta_days delta + 1)"
  then have "int d \<le> delta div day_us"
    by (simp add: timedelta_days_def)
  then have "int d * day_us \<le> delta div day_us * day_us"
    using day_us_pos by (simp add: mult_right_mono)
  also have "\<dots> \<le> delta"
    using day_us_pos by (metis mult.commute pos_mod_sign mult_div_mod_eq add_increasing2 order_refl add.commute)
  finally show "wall sd + int d * day_us < max_ordinal * day_us"
    using assms(2) by simp
qed

lemma build_itinerary_within:
  assumes "parse start = Inr sd" and "parse end' = Inr ed"
    and "sub_datetime ed sd = Inr delta" and "0 \<le> delta"
    and "0 \<le> wall sd" and "wall sd + delta < max_ordinal * day_us"
  shows "build_itinerary parse places start end' =
           Inr (plan places (date_of sd) (Suc (nat (delta div day_us))))"
proof -
  have nn: "0 \<le> delta div day_us"
    using assms(4) day_us_pos by (simp add: pos_imp_zdiv_nonneg_iff)
  then have n: "nat (timedelta_days delta + 1) = Suc (nat (delta div day_us))"
    by (simp add: timedelta_days_def nat_add_distrib)
  show ?thesis
    using build_itinerary_plan [OF assms(1,2,3,5) days_within [OF assms(4,6)], of places]
    by (simp add: n)
qed

lemma build_itinerary_same_offset:
  assumes "parse start = Inr sd" and "parse end' = Inr ed"
    and "valid_datetime sd" and "valid_datetime ed"
    and "utcoffset ed = utcoffset sd" and "wall sd \<le> wall ed"
  shows "build_itinerary parse places start end' =
           Inr (plan places (date_of sd) (Suc (nat ((wall ed - wall sd) div day_us))))"
  using build_itinerary_within [OF assms(1,2) same_offset_delta [OF assms(5)], of places]
    assms(3,4,6)
  by (simp add: valid_datetime_def)

text \<open>
  Facts about the closed form: its keys, its visits and the places it consumes.
\<close>

lemma plan_Suc:
  "plan places sd (Suc n) = plan places sd n @ [(sd + int n, day_items places (sd + int n) (3 * n))]"
  by (simp add: plan_def)

lemma length_plan: "length (plan places sd n) = n"
  by (simp add: plan_def)

lemma keys_plan: "map fst (plan places sd n) = [sd .. sd + int n - 1]"
proof (induction n)
  case 0
  then show ?case by (simp add: plan_def)
next
  case (Suc n)
  have "[sd .. sd + int (Suc n) - 1] = [sd .. sd + int n - 1] @ [sd + int n]"
    using upto_rec2 [of sd "sd + int n"] by simp
  with Suc show ?case by (simp add: plan_Suc)
qed

lemma lookup_plan:
  assumes "d \<in> {sd .. sd + int n - 1}"
  shows "dict_get (plan places sd n) d = Some (day_items places d (3 * nat (d - sd)))"
proof -
  have k: "nat (d - sd) < n" and d: "d = sd + int (nat (d - sd))"
    using assms by auto
  have "distinct (map fst (plan places sd n))" by (simp add: keys_plan)
  moreover have "(d, day_items places d (3 * nat (d - sd))) \<in> set (plan places sd n)"
    unfolding plan_def using k d
    by (metis (no_types, lifting) atLeast0LessThan image_eqI lessThan_iff set_map set_upt)
  ultimately show ?thesis by (simp add: dict_get_def)
qed

lemma places_day_items: "map place (day_items places dy i) = take 3 (drop i places)"
proof -
  have "map place (day_items places dy i) = map snd (zip time_blocks (drop i places))"
    by (simp add: day_items_def comp_def case_prod_beta)
  also have "\<dots> = take (length time_blocks) (drop i places)"
    by (simp add: map_snd_zip_take min_def)
  finally show ?thesis by (simp add: time_blocks_def numeral_3_eq_3)
qed

lemma places_plan:
  "map place (concat (map snd (plan places sd n))) = take (3 * n) places"
proof (induction n)
  case 0
  then show ?case by (simp add: plan_def)
next
  case (Suc n)
  have "take (3 * n) places @ take 3 (drop (3 * n) places) = take (3 * Suc n) places"
    by (simp add: take_add [symmetric] add.commute)
  with Suc show ?case by (simp add: plan_Suc places_day_items)
qed

lemma length_day_items:
  "i + 3 \<le> length places \<Longrightarrow> length (day_items places dy i) = 3"
  by (simp add: day_items_def time_blocks_def)

lemma plan_full_days:
  assumes "3 * n \<le> length places" and "(d, items) \<in> set (plan places sd n)"
  shows "length items = 3"
  using assms by (auto simp: plan_def length_day_items)

lemma blocks_day_items:
  "i + 3 \<le> length places \<Longrightarrow> map time_range (day_items places dy i) = time_blocks"
proof -
  assume "i + 3 \<le> length places"
  then have l: "length time_blocks \<le> length (drop i places)"
    by (simp add: time_blocks_def)
  have "map time_range (day_items places dy i) = map fst (zip time_blocks (drop i places))"
    by (simp add: day_items_def comp_def case_prod_beta)
  also have "\<dots> = time_blocks"
    using l by (simp add: map_fst_zip_take min_def)
  finally show ?thesis .
qed

lemma plan_full_days_blocks:
  assumes "3 * n \<le> length places" and "(d, items) \<in> set (plan places sd n)"
  shows "map time_range items = time_blocks"
  using assms by (auto simp: plan_def blocks_day_items)

lemma plan_single:
  "plan [p] sd (Suc n) =
     (sd, [\<lparr>day = sd, time_range = ''09:00-12:00'', place = p\<rparr>]) #
     map (\<lambda>d. (d, [])) [sd + 1 .. sd + int n]"
proof (induction n)
  case 0
  then show ?case by (simp add: plan_def day_items_def time_blocks_def)
next
  case (Suc n)
  have "[sd + 1 .. sd + int (Suc n)] = [sd + 1 .. sd + int n] @ [sd + int (Suc n)]"
    using upto_rec2 [of "sd + 1" "sd + int (Suc n)"] by simp
  moreover have "day_items [p] (sd + int (Suc n)) (3 * Suc n) = []"
    by (simp add: day_items_beyond)
  ultimately show ?case using Suc plan_Suc [of "[p]" sd "Suc n"] by simp
qed

lemma div_difference:
  assumes "0 < (D :: int)" and "a mod D \<le> b mod D"
  shows "(b - a) div D = b div D - a div D"
proof -
  have "b - a = D * (b div D - a div D) + (b mod D - a mod D)"
    by (simp add: algebra_simps)
  moreover have "0 \<le> b mod D - a mod D" using assms(2) by simp
  moreover have "b mod D - a mod D < D"
    using pos_mod_bound [OF assms(1), of b] pos_mod_sign [OF assms(1), of a] by linarith
  ultimately show ?thesis by (rule int_div_pos_eq)
qed

section \<open>Properties of the scheduler\<close>

text \<open>
  Claim C1. For a range of exactly N days (N at least 1: the end is the start moved on
  by N - 1 days) and at least 3N candidates of distinct names, the itinerary has N days
  of exactly 3 visits each, one in each time block, the visits are the first 3N
  candidates in rank order, and no place name occurs twice.
\<close>

theorem full_schedule_without_repetition:
  assumes "parse start = Inr sd" and "parse end' = Inr ed"
    and "valid_datetime sd" and "valid_datetime ed"
    and "utcoffset ed = utcoffset sd"
    and "1 \<le> N" and "wall ed = wall sd + (int N - 1) * day_us"
    and "3 * N \<le> length places" and "distinct (map name places)"
  shows "\<exists>it. build_itinerary parse places start end' = Inr it \<and>
           length it = N \<and>
           (\<forall>(d, items) \<in> set it.
              length items = 3 \<and> map time_range items = time_blocks) \<and>
           map place (concat (map snd it)) = take (3 * N) places \<and>
           distinct (map (name \<circ> place) (concat (map snd it)))"
proof -
  let ?it = "plan places (date_of sd) N"
  have le: "wall sd \<le> wall ed"
    using assms(6,7) day_us_pos by simp
  have "(wall ed - wall sd) div day_us = int N - 1"
    using assms(7) day_us_pos by simp
  then have "Suc (nat ((wall ed - wall sd) div day_us)) = N"
    using assms(6) by simp
  then have run: "build_itinerary parse places start end' = Inr ?it"
    using build_itinerary_same_offset [OF assms(1,2,3,4,5) le, of places] by simp
  have full: "\<forall>(d, items) \<in> set ?it.
      length items = 3 \<and> map time_range items = time_blocks"
    using plan_full_days [OF assms(8)] plan_full_days_blocks [OF assms(8)] by auto
  have order: "map place (concat (map snd ?it)) = take (3 * N) places"
    by (rule places_plan)
  have "map (name \<circ> place) (concat (map snd ?it)) = map name (take (3 * N) places)"
    using order by (metis map_map)
  then have once: "distinct (map (name \<circ> place) (concat (map snd ?it)))"
    using assms(9) by (simp add: take_map [symmetric] distinct_take)
  show ?thesis using run full order once by (auto simp: length_plan)
qed

theorem full_schedule_without_repetition_witness:
  "parse_example ''2025-12-10'' = Inr \<lparr>wall = 739594 * day_us, utcoffset = None\<rparr> \<and>
   valid_datetime \<lparr>wall = 739594 * day_us, utcoffset = None\<rparr> \<and>
   (1 :: nat) \<le> 1 \<and>
   3 * 1 \<le> length (map compact_place demo_places) \<and>
   distinct (map name (map compact_place demo_places)) \<and>
   (\<exists>it. build_itinerary parse_example (map compact_place demo_places)
            ''2025-12-10'' ''2025-12-10'' = Inr it \<and>
      length it = 1 \<and>
      map place (concat (map snd it)) = take (3 * 1) (map compact_place demo_places) \<and>
      distinct (map (name \<circ> place) (concat (map snd it))))"
proof -
  let ?t = "\<lparr>wall = 739594 * day_us, utcoffset = None\<rparr>"
  have a: "parse_example ''2025-12-10'' = Inr ?t" by code_simp
  have v: "valid_datetime ?t" by (simp add: valid_datetime_def day_us_def max_ordinal_def)
  have n: "(1 :: nat) \<le> 1" by simp
  have o: "utcoffset ?t = utcoffset ?t" by simp
  have e: "wall ?t = wall ?t + (int 1 - 1) * day_us" by simp
  have l: "3 * 1 \<le> length (map compact_place demo_places)"
    by (simp add: demo_places_def)
  have d: "distinct (map name (map compact_place demo_places))"
    by (simp add: demo_places_def compact_place_def)
  show ?thesis
    using full_schedule_without_repetition
      [where parse = parse_example and start = "''2025-12-10''" and end' = "''2025-12-10''",
        OF a a v v o n e l d] a v n l d by blast
qed

text \<open>
  Claim C4 as stated fails on a range with times of day: from 2025-12-10T23:00 to
  2025-12-11T01:00 the end is two hours after the start, \<open>(ed - sd).days + 1\<close> is 1,
  and the itinerary has the key of 2025-12-10 only, none for 2025-12-11. It also fails
  when a day of the loop lies past the year 9999, which two different UTC offsets make
  possible: from 9999-12-30T00:00+23:00 to 9999-12-31T23:00-01:00 the third day
  raises \<open>OverflowError\<close>.
\<close>

theorem date_time_range_counterexample:
  "parse_example ''2025-12-10T23:00'' = Inr \<lparr>wall = 63901004400000000, utcoffset = None\<rparr> \<and>
   parse_example ''2025-12-11T01:00'' = Inr \<lparr>wall = 63901011600000000, utcoffset = None\<rparr> \<and>
   sub_datetime \<lparr>wall = 63901011600000000, utcoffset = None\<rparr>
                \<lparr>wall = 63901004400000000, utcoffset = None\<rparr> = Inr 7200000000 \<and>
   date_of \<lparr>wall = 63901004400000000, utcoffset = None\<rparr> = 739595 \<and>
   date_of \<lparr>wall = 63901011600000000, utcoffset = None\<rparr> = 739596 \<and>
   build_itinerary parse_example [] ''2025-12-10T23:00'' ''2025-12-11T01:00'' =
     Inr [(739595, [])] \<and>
   build_itinerary parse_example [] ''9999-12-30T00:00+23:00'' ''9999-12-31T23:00-01:00'' =
     Inl OverflowError"
  by code_simp

text \<open>
  Claim C4, as amended. Take a start and an end whose difference \<open>ed - sd\<close> is defined
  and not negative, in a range that does not pass the end of the year 9999 (the start
  moved on by the difference is a \<open>datetime\<close>, as it is for every start and end of one
  UTC offset). The itinerary has a key for each of the \<open>(ed - sd).days + 1\<close> dates from
  the date of the start on, in this order. These are all the dates from the start to
  the end when the two have the same UTC offset (or are both naive) and the time of day
  of the end is not earlier than that of the start, so in particular for two calendar
  dates. A day past the exhaustion of the candidates maps to the empty list. For
  start = end there is exactly one day key, and a single candidate is placed on day 1
  in the slot 09:00-12:00 with every other day empty.
\<close>

theorem every_day_has_a_key:
  assumes "parse start = Inr sd" and "parse end' = Inr ed"
    and "sub_datetime ed sd = Inr delta" and "0 \<le> delta"
    and "0 \<le> wall sd" and "wall sd + delta < max_ordinal * day_us"
  shows "\<exists>it. build_itinerary parse places start end' = Inr it \<and>
           map fst it = [date_of sd .. date_of sd + delta div day_us] \<and>
           (utcoffset ed = utcoffset sd \<and> wall sd mod day_us \<le> wall ed mod day_us \<longrightarrow>
              map fst it = [date_of sd .. date_of ed]) \<and>
           (\<forall>d \<in> set (map fst it). \<exists>items. dict_get it d = Some items \<and>
              (length places \<le> 3 * nat (d - date_of sd) \<longrightarrow> items = [])) \<and>
           (sd = ed \<longrightarrow> length it = 1) \<and>
           (\<forall>p. places = [p] \<longrightarrow>
              it = (date_of sd, [\<lparr>day = date_of sd, time_range = ''09:00-12:00'', place = p\<rparr>]) #
                   map (\<lambda>d. (d, [])) [date_of sd + 1 .. date_of sd + delta div day_us])"
proof -
  define n where "n = nat (delta div day_us)"
  have nn: "0 \<le> delta div day_us"
    using assms(4) day_us_pos by (simp add: pos_imp_zdiv_nonneg_iff)
  then have last: "delta div day_us = int n" by (simp add: n_def)
  let ?s = "date_of sd"
  let ?it = "plan places ?s (Suc n)"
  have run: "build_itinerary parse places start end' = Inr ?it"
    using build_itinerary_within [OF assms, of places] by (simp add: n_def)
  have keys: "map fst ?it = [?s .. ?s + delta div day_us]"
    using keys_plan [of places ?s "Suc n"] last by simp
  have dates: "utcoffset ed = utcoffset sd \<and> wall sd mod day_us \<le> wall ed mod day_us \<longrightarrow>
      map fst ?it = [?s .. date_of ed]"
  proof
    assume a: "utcoffset ed = utcoffset sd \<and> wall sd mod day_us \<le> wall ed mod day_us"
    then have d: "delta = wall ed - wall sd"
      using same_offset_delta [of ed sd] assms(3) by simp
    have "(wall ed - wall sd) div day_us = wall ed div day_us - wall sd div day_us"
      using day_us_pos a by (intro div_difference) simp_all
    then have "?s + delta div day_us = date_of ed"
      by (simp add: date_of_def d)
    then show "map fst ?it = [?s .. date_of ed]" using keys by simp
  qed
  have lookup: "\<forall>d \<in> set (map fst ?it). \<exists>items. dict_get ?it d = Some items \<and>
      (length places \<le> 3 * nat (d - ?s) \<longrightarrow> items = [])"
  proof
    fix d assume "d \<in> set (map fst ?it)"
    then have "d \<in> {?s .. ?s + int (Suc n) - 1}"
      by (simp add: keys_plan)
    then have "dict_get ?it d = Some (day_items places d (3 * nat (d - ?s)))"
      by (rule lookup_plan)
    then show "\<exists>items. dict_get ?it d = Some items \<and>
      (length places \<le> 3 * nat (d - ?s) \<longrightarrow> items = [])"
      by (simp add: day_items_beyond)
  qed
  have one: "sd = ed \<longrightarrow> length ?it = 1"
  proof
    assume "sd = ed"
    then have "delta = 0"
      using same_offset_delta [of ed sd] assms(3) by simp
    then show "length ?it = 1" by (simp add: length_plan n_def)
  qed
  have single: "\<forall>p. places = [p] \<longrightarrow>
      ?it = (?s, [\<lparr>day = ?s, time_range = ''09:00-12:00'', place = p\<rparr>]) #
            map (\<lambda>d. (d, [])) [?s + 1 .. ?s + delta div day_us]"
    using plan_single [of _ ?s n] last by simp
  show ?thesis using run keys dates lookup one single by blast
qed

theorem every_day_has_a_key_witness:
  "parse_example ''2025-12-10'' = Inr \<lparr>wall = 739594 * day_us, utcoffset = None\<rparr> \<and>
   parse_example ''2025-12-12'' = Inr \<lparr>wall = 739596 * day_us, utcoffset = None\<rparr> \<and>
   sub_datetime \<lparr>wall = 739596 * day_us, utcoffset = None\<rparr>
                \<lparr>wall = 739594 * day_us, utcoffset = None\<rparr> = Inr (2 * day_us) \<and>
   0 \<le> 2 * day_us \<and> 0 \<le> 739594 * day_us \<and>
   739594 * day_us + 2 * day_us < max_ordinal * day_us \<and>
   date_of \<lparr>wall = 739596 * day_us, utcoffset = None\<rparr> = 739597 \<and>
   build_itinerary parse_example [compact_place (demo_places ! 0)] ''2025-12-10'' ''2025-12-12'' =
     Inr [(739595, [\<lparr>day = 739595, time_range = ''09:00-12:00'',
                      place = compact_place (demo_places ! 0)\<rparr>]),
          (739596, []), (739597, [])]"
proof -
  let ?sd = "\<lparr>wall = 739594 * day_us, utcoffset = None\<rparr>"
  let ?ed = "\<lparr>wall = 739596 * day_us, utcoffset = None\<rparr>"
  have a: "parse_example ''2025-12-10'' = Inr ?sd" by code_simp
  have b: "parse_example ''2025-12-12'' = Inr ?ed" by code_simp
  have c: "sub_datetime ?ed ?sd = Inr (2 * day_us)" by (simp add: sub_datetime_def)
  have d: "0 \<le> 2 * day_us" by (simp add: day_us_def)
  have e: "0 \<le> wall ?sd" by (simp add: day_us_def)
  have f: "wall ?sd + 2 * day_us < max_ordinal * day_us"
    by (simp add: day_us_def max_ordinal_def)
  have s: "date_of ?sd = 739595" by (simp add: date_of_def day_us_def)
  have s': "date_of ?ed = 739597" by (simp add: date_of_def day_us_def)
  have n: "2 * day_us div day_us = 2" by (simp add: day_us_def)
  have days: "[739595 + 1 .. 739595 + 2 :: int] = [739596, 739597]"
    by (simp add: upto_rec1)
  obtain it where
    "build_itinerary parse_example [compact_place (demo_places ! 0)] ''2025-12-10'' ''2025-12-12''
       = Inr it"
    "it = (date_of ?sd, [\<lparr>day = date_of ?sd, time_range = ''09:00-12:00'',
                     place = compact_place (demo_places ! 0)\<rparr>]) #
          map (\<lambda>d. (d, [])) [date_of ?sd + 1 .. date_of ?sd + 2 * day_us div day_us]"
    using every_day_has_a_key
      [where parse = parse_example and start = "''2025-12-10''" and end' = "''2025-12-12''"
         and places = "[compact_place (demo_places ! 0)]", OF a b c d e f] by blast
  then show ?thesis using a b c d e f s' days unfolding s n by simp
qed

text \<open>
  Claim C6. For two valid ISO dates with the end before the start (the difference
  end - start is negative), \<open>build_itinerary\<close> raises no error and returns the itinerary
  with no day key.
\<close>

theorem inverted_range_empty:
  assumes "parse start = Inr sd" and "parse end' = Inr ed"
    and "sub_datetime ed sd = Inr delta" and "delta < 0"
  shows "build_itinerary parse places start end' = Inr []"
proof -
  have "delta div day_us < 0"
    using assms(4) day_us_pos by (simp add: div_neg_pos_less0)
  then have "nat (timedelta_days delta + 1) = 0"
    by (simp add: timedelta_days_def)
  then show ?thesis
    using assms(1,2,3) by (simp add: build_itinerary_def)
qed

theorem inverted_range_empty_witness:
  "parse_example ''2025-12-12'' = Inr \<lparr>wall = 739596 * day_us, utcoffset = None\<rparr> \<and>
   parse_example ''2025-12-10'' = Inr \<lparr>wall = 739594 * day_us, utcoffset = None\<rparr> \<and>
   sub_datetime \<lparr>wall = 739594 * day_us, utcoffset = None\<rparr>
                \<lparr>wall = 739596 * day_us, utcoffset = None\<rparr> = Inr (- 2 * day_us) \<and>
   - 2 * day_us < 0 \<and>
   build_itinerary parse_example (map compact_place demo_places) ''2025-12-12'' ''2025-12-10'' =
     Inr []"
proof -
  have a: "parse_example ''2025-12-12'' = Inr \<lparr>wall = 739596 * day_us, utcoffset = None\<rparr>"
    by code_simp
  have b: "parse_example ''2025-12-10'' = Inr \<lparr>wall = 739594 * day_us, utcoffset = None\<rparr>"
    by code_simp
  have c: "sub_datetime \<lparr>wall = 739594 * day_us, utcoffset = None\<rparr>
                \<lparr>wall = 739596 * day_us, utcoffset = None\<rparr> = Inr (- 2 * day_us)"
    by (simp add: sub_datetime_def)
  have d: "- 2 * day_us < 0" by (simp add: day_us_def)
  show ?thesis
    using inverted_range_empty
      [where parse = parse_example and start = "''2025-12-12''" and end' = "''2025-12-10''"
         and places = "map compact_place demo_places", OF a b c d] a b c d
    by blast
qed

section \<open>Properties of the collector\<close>

text \<open>
  Facts about the dictionary operations and the deduplication loop of
  \<open>ResearchAgent.run\<close>.
\<close>

lemma map_of_dict_set: "map_of (dict_set k v d) = (map_of d)(k \<mapsto> v)"
  by (induction d) (auto simp: fun_eq_iff)

lemma keys_dict_set:
  "map fst (dict_set k v d) = (if k \<in> fst ` set d then map fst d else map fst d @ [k])"
  by (induction d) force+

lemma distinct_dict_set: "distinct (map fst d) \<Longrightarrow> distinct (map fst (dict_set k v d))"
  by (simp add: keys_dict_set)

lemma set_dict_set: "set (dict_set k v d) \<subseteq> insert (k, v) (set d)"
  by (induction d) (auto split: if_splits)

lemma dedupe_snoc: "dedupe (rs @ [r]) = dict_set (name r) r (dedupe rs)"
  by (simp add: dedupe_def)

lemma distinct_dedupe: "distinct (map fst (dedupe rs))"
  by (induction rs rule: rev_induct) (simp_all add: dedupe_snoc distinct_dict_set, simp add: dedupe_def)

lemma dedupe_last_seen: "map_of (dedupe rs) k = find (\<lambda>r. name r = k) (rev rs)"
  by (induction rs rule: rev_induct) (simp_all add: dedupe_snoc map_of_dict_set, simp add: dedupe_def)

lemma dedupe_keyed: "(k, v) \<in> set (dedupe rs) \<Longrightarrow> name v = k"
proof (induction rs arbitrary: k v rule: rev_induct)
  case Nil
  then show ?case by (simp add: dedupe_def)
next
  case (snoc r rs)
  then show ?case using set_dict_set [of "name r" r "dedupe rs"]
    by (auto simp: dedupe_snoc)
qed

lemma dedupe_subset: "(k, v) \<in> set (dedupe rs) \<Longrightarrow> v \<in> set rs"
proof (induction rs arbitrary: k v rule: rev_induct)
  case Nil
  then show ?case by (simp add: dedupe_def)
next
  case (snoc r rs)
  then show ?case using set_dict_set [of "name r" r "dedupe rs"]
    by (auto simp: dedupe_snoc)
qed

lemma names_dedupe: "map name (dict_values (dedupe rs)) = map fst (dedupe rs)"
  by (auto simp: dict_values_def dest: dedupe_keyed)

lemma keys_dedupe: "map fst (dedupe rs) = rev (remdups (rev (map name rs)))"
proof (induction rs rule: rev_induct)
  case Nil
  then show ?case by (simp add: dedupe_def)
next
  case (snoc r rs)
  have "set (map fst (dedupe rs)) = name ` set rs"
    unfolding snoc.IH by simp
  then have "(name r \<in> fst ` set (dedupe rs)) = (name r \<in> name ` set rs)"
    by simp
  then show ?case using snoc.IH by (simp add: dedupe_snoc keys_dict_set)
qed

lemma value_last_seen:
  assumes "v \<in> set (dict_values (dedupe rs))"
  shows "find (\<lambda>r. name r = name v) (rev rs) = Some v"
proof -
  obtain k where kv: "(k, v) \<in> set (dedupe rs)"
    using assms by (auto simp: dict_values_def)
  then have "map_of (dedupe rs) k = Some v"
    using distinct_dedupe by simp
  moreover have "name v = k" using kv by (rule dedupe_keyed)
  ultimately show ?thesis by (simp add: dedupe_last_seen)
qed

lemma last_seen_value:
  assumes "h \<in> set rs"
  shows "\<exists>v \<in> set (dict_values (dedupe rs)). find (\<lambda>r. name r = name h) (rev rs) = Some v"
proof -
  have "name h \<in> set (map fst (dedupe rs))"
    using assms by (simp add: keys_dedupe)
  then obtain v where kv: "(name h, v) \<in> set (dedupe rs)" by auto
  then have "map_of (dedupe rs) (name h) = Some v"
    using distinct_dedupe by simp
  then have "find (\<lambda>r. name r = name h) (rev rs) = Some v"
    by (simp add: dedupe_last_seen)
  moreover have "v \<in> set (dict_values (dedupe rs))"
    using kv by (force simp: dict_values_def)
  ultimately show ?thesis by blast
qed

lemma slice_to_20: "slice_to 20 xs = take 20 xs"
  by (simp add: slice_to_def)

lemma name_compact [simp]: "name (compact_place h) = name h"
  by (simp add: compact_place_def)

lemma rating_compact [simp]: "rating (compact_place h) = rating h"
  by (simp add: compact_place_def)

text \<open>The sort permutes its input, whatever the keys.\<close>

lemma mset_binarysort: "mset (binarysort key sp rest) = mset sp + mset rest"
proof (induction rest arbitrary: sp)
  case Nil
  then show ?case by simp
next
  case (Cons pivot rest)
  define l where "l = bisect key pivot sp 0 (length sp)"
  have "mset (take l sp @ pivot # drop l sp) = mset sp + {#pivot#}"
    by (metis append_take_drop_id mset_append mset.simps(2) union_mset_add_mset_right
        add_mset_add_single)
  then show ?case using Cons.IH [of "take l sp @ pivot # drop l sp"]
    by (simp add: l_def Let_def del: bisect.simps)
qed

lemma mset_listsort: "mset (listsort key xs) = mset xs"
proof -
  obtain n d where c: "count_run key xs = (n, d)" by (cases "count_run key xs")
  have "mset (take n xs) + mset (drop n xs) = mset xs"
    by (metis append_take_drop_id mset_append)
  then show ?thesis by (simp add: listsort_def c mset_binarysort)
qed

lemma mset_list_sort: "mset (list_sort key xs) = mset xs"
  by (simp add: list_sort_def mset_listsort)

lemma mset_sorted_py: "mset (sorted_py key rv xs) = mset xs"
  by (simp add: sorted_py_def mset_list_sort)

lemma set_sorted_py [simp]: "set (sorted_py key rv xs) = set xs"
  using mset_sorted_py by (rule mset_eq_setD)

lemma length_sorted_py [simp]: "length (sorted_py key rv xs) = length xs"
  using mset_sorted_py by (rule mset_eq_length)

lemma distinct_map_sorted_py: "distinct (map f (sorted_py key rv xs)) = distinct (map f xs)"
proof -
  have "mset (map f (sorted_py key rv xs)) = mset (map f xs)"
    by (simp add: mset_sorted_py)
  then show ?thesis by (rule mset_eq_imp_distinct_iff)
qed

text \<open>Without NaN among the keys the sort is descending and stable.\<close>

lemma rank_inject: "rank a = rank b \<longleftrightarrow> a = b"
  by (cases a; cases b) simp_all

lemma float_le_rank: "a \<noteq> NaN \<Longrightarrow> b \<noteq> NaN \<Longrightarrow> float_le a b \<longleftrightarrow> rank a \<le> rank b"
  by (simp add: float_le_def)

lemma sorted_py_descending:
  assumes "\<forall>x \<in> set xs. key x \<noteq> NaN"
  shows "sorted_wrt (\<lambda>a b. float_le (key b) (key a)) (sorted_py key True xs)"
proof -
  let ?ys = "sort_key (\<lambda>x. rank (key x)) (rev xs)"
  have "sorted_wrt (\<lambda>a b. rank (key a) \<le> rank (key b)) ?ys"
    using sorted_sort_key [of "\<lambda>x. rank (key x)" "rev xs"] by (simp add: sorted_wrt_map)
  moreover have "\<forall>x \<in> set ?ys. key x \<noteq> NaN" using assms by simp
  ultimately have "sorted_wrt (\<lambda>a b. float_le (key a) (key b)) ?ys"
    by (auto elim!: sorted_wrt_mono_rel [rotated] simp: float_le_rank)
  then show ?thesis using assms by (simp add: sorted_py_def list_sort_def sorted_wrt_rev)
qed

lemma sorted_py_stable:
  assumes "\<forall>x \<in> set xs. key x \<noteq> NaN"
  shows "filter (\<lambda>x. key x = k) (sorted_py key True xs) = filter (\<lambda>x. key x = k) xs"
proof -
  have eq: "(\<lambda>x. key x = k) = (\<lambda>x. rank (key x) = rank k)"
    by (simp add: rank_inject)
  have "filter (\<lambda>x. key x = k) (rev (sort_key (\<lambda>x. rank (key x)) (rev xs))) =
        rev (filter (\<lambda>x. rank (key x) = rank k) (sort_key (\<lambda>x. rank (key x)) (rev xs)))"
    by (simp add: rev_filter eq)
  also have "\<dots> = rev (filter (\<lambda>x. rank (key x) = rank k) (rev xs))"
    by (simp only: sort_key_stable)
  also have "\<dots> = filter (\<lambda>x. key x = k) xs"
    by (simp add: rev_filter eq)
  finally show ?thesis using assms by (simp add: sorted_py_def list_sort_def)
qed

lemma run_unfold:
  "run search_tool dest interests top_k_each =
     map compact_place
       (take 20 (sorted_py rating True
          (dict_values (dedupe (collect search_tool dest interests top_k_each)))))"
  by (simp add: run_def slice_to_20)

lemma distinct_names_dedupe: "distinct (map name (dict_values (dedupe rs)))"
  by (simp add: names_dedupe distinct_dedupe)

text \<open>
  Claim C2 as stated fails on search results with duplicate names and 25 distinct
  names: the ranked list is cut to its first 20 places, and a name of the search
  results is missing from the output.
\<close>

theorem collector_cap_counterexample:
  "\<not> distinct (map name (collect grid_tool ''X'' [''a'', ''b'', ''c'', ''d'', ''e'', ''a''] 5)) \<and>
   ''X top ee'' \<in> set (map name (collect grid_tool ''X'' [''a'', ''b'', ''c'', ''d'', ''e'', ''a''] 5)) \<and>
   ''X top ee'' \<notin> set (map name (run grid_tool ''X'' [''a'', ''b'', ''c'', ''d'', ''e'', ''a''] 5))"
  by code_simp

text \<open>
  Claim C2, as amended. The output of \<open>ResearchAgent.run\<close> contains no name twice;
  every record in it carries the six fields of the last-seen search result of its name;
  every name in it is a name of the search results; it has as many records as there
  are distinct names, but 20 at most; with at most 20 distinct names every one of them
  is in the output; and, no rating being NaN, the last-seen record of a name that is
  missing from the output is rated no higher than any place of the output.
\<close>

theorem collector_dedupes_within_cap:
  fixes search_tool dest interests top_k_each
  defines "results \<equiv> collect search_tool dest interests top_k_each"
  defines "out \<equiv> run search_tool dest interests top_k_each"
  shows "distinct (map name out) \<and>
         (\<forall>p \<in> set out. \<exists>h. find (\<lambda>r. name r = name p) (rev results) = Some h \<and>
                                p = compact_place h) \<and>
         name ` set out \<subseteq> name ` set results \<and>
         length out = min 20 (card (name ` set results)) \<and>
         (card (name ` set results) \<le> 20 \<longrightarrow> name ` set out = name ` set results) \<and>
         ((\<forall>h \<in> set results. rating h \<noteq> NaN) \<longrightarrow>
          (\<forall>h \<in> set results. name h \<notin> name ` set out \<longrightarrow>
             (\<forall>p \<in> set out. \<exists>h'. find (\<lambda>r. name r = name h) (rev results) = Some h' \<and>
                                    float_le (rating h') (rating p))))"
proof -
  let ?vs = "dict_values (dedupe results)"
  let ?ranked = "sorted_py rating True ?vs"
  have out: "out = map compact_place (take 20 ?ranked)"
    by (simp add: out_def results_def run_unfold)
  have names_out: "map name out = take 20 (map name ?ranked)"
    by (simp add: out take_map comp_def)
  have dvs: "distinct (map name ?vs)" by (rule distinct_names_dedupe)
  then have dr: "distinct (map name ?ranked)"
    by (simp add: distinct_map_sorted_py)
  then have c1: "distinct (map name out)"
    by (simp add: names_out)
  have c2: "\<forall>p \<in> set out. \<exists>h. find (\<lambda>r. name r = name p) (rev results) = Some h \<and>
                                p = compact_place h"
  proof
    fix p assume "p \<in> set out"
    then obtain h where h: "h \<in> set (take 20 ?ranked)" and p: "p = compact_place h"
      by (auto simp: out)
    from h have "h \<in> set ?vs" by (auto dest: in_set_takeD)
    then have "find (\<lambda>r. name r = name h) (rev results) = Some h"
      by (rule value_last_seen)
    then show "\<exists>h. find (\<lambda>r. name r = name p) (rev results) = Some h \<and> p = compact_place h"
      using p by auto
  qed
  have names_vs: "set (map name ?vs) = name ` set results"
    by (simp add: names_dedupe keys_dedupe)
  have "set (map name out) \<subseteq> set (map name ?ranked)"
    unfolding names_out by (rule set_take_subset)
  then have c3: "name ` set out \<subseteq> name ` set results"
    using names_vs by simp
  have len_vs: "length ?vs = card (name ` set results)"
    using distinct_card [OF dvs] names_vs by simp
  have c4: "length out = min 20 (card (name ` set results))"
    using len_vs by (simp add: out min.commute)
  have c5: "card (name ` set results) \<le> 20 \<longrightarrow> name ` set out = name ` set results"
  proof
    assume "card (name ` set results) \<le> 20"
    then have "take 20 (map name ?ranked) = map name ?ranked" using len_vs by simp
    then have "set (map name out) = set (map name ?ranked)"
      by (simp only: names_out)
    then show "name ` set out = name ` set results"
      using names_vs by simp
  qed
  have c6: "(\<forall>h \<in> set results. rating h \<noteq> NaN) \<longrightarrow>
          (\<forall>h \<in> set results. name h \<notin> name ` set out \<longrightarrow>
             (\<forall>p \<in> set out. \<exists>h'. find (\<lambda>r. name r = name h) (rev results) = Some h' \<and>
                                    float_le (rating h') (rating p)))"
  proof (intro impI ballI)
    fix h p
    assume nonan: "\<forall>h \<in> set results. rating h \<noteq> NaN"
      and h: "h \<in> set results" and absent: "name h \<notin> name ` set out" and p: "p \<in> set out"
    obtain v where v: "v \<in> set ?vs"
      and last: "find (\<lambda>r. name r = name h) (rev results) = Some v"
      using last_seen_value [OF h] by blast
    have nv: "name v = name h"
      using value_last_seen [OF v] last
      by (metis (mono_tags, lifting) find_Some_iff option.inject)
    have "\<forall>x \<in> set ?vs. rating x \<noteq> NaN"
      using nonan by (auto simp: dict_values_def dest: dedupe_subset)
    then have sorted: "sorted_wrt (\<lambda>a b. float_le (rating b) (rating a)) ?ranked"
      by (rule sorted_py_descending)
    have "v \<notin> set (take 20 ?ranked)"
    proof
      assume "v \<in> set (take 20 ?ranked)"
      then have "compact_place v \<in> set out" by (simp add: out)
      then have "name (compact_place v) \<in> name ` set out" by (rule imageI)
      then show False using absent nv by simp
    qed
    moreover have "v \<in> set ?ranked" using v by simp
    then have "v \<in> set (take 20 ?ranked) \<union> set (drop 20 ?ranked)"
      by (metis append_take_drop_id set_append)
    ultimately have vd: "v \<in> set (drop 20 ?ranked)" by blast
    obtain q where q: "q \<in> set (take 20 ?ranked)" and pq: "p = compact_place q"
      using p by (auto simp: out)
    have "sorted_wrt (\<lambda>a b. float_le (rating b) (rating a)) (take 20 ?ranked @ drop 20 ?ranked)"
      using sorted by simp
    then have "float_le (rating v) (rating q)"
      using q vd unfolding sorted_wrt_append by blast
    then show "\<exists>h'. find (\<lambda>r. name r = name h) (rev results) = Some h' \<and>
                     float_le (rating h') (rating p)"
      using last pq by simp
  qed
  show ?thesis using c1 c2 c3 c4 c5 c6 by blast
qed

theorem collector_dedupes_within_cap_witness:
  "card (name ` set (collect search_tool_stub ''New York'' [''museums'', ''parks''] 5)) \<le> 20 \<and>
   compact_place (demo_places ! 1) \<in> set (run search_tool_stub ''New York'' [''museums'', ''parks''] 5) \<and>
   length (collect search_tool_stub ''New York'' [''museums'', ''parks''] 5) = 8 \<and>
   distinct (map name (run search_tool_stub ''New York'' [''museums'', ''parks''] 5)) \<and>
   length (run search_tool_stub ''New York'' [''museums'', ''parks''] 5) =
     min 20 (card (name ` set (collect search_tool_stub ''New York'' [''museums'', ''parks''] 5))) \<and>
   name ` set (run search_tool_stub ''New York'' [''museums'', ''parks''] 5) =
   name ` set (collect search_tool_stub ''New York'' [''museums'', ''parks''] 5) \<and>
   (\<exists>h. find (\<lambda>r. name r = name (compact_place (demo_places ! 1)))
             (rev (collect search_tool_stub ''New York'' [''museums'', ''parks''] 5)) = Some h \<and>
        compact_place (demo_places ! 1) = compact_place h)"
proof -
  have a: "card (name ` set (collect search_tool_stub ''New York'' [''museums'', ''parks''] 5)) \<le> 20"
    by code_simp
  have b: "compact_place (demo_places ! 1) \<in>
           set (run search_tool_stub ''New York'' [''museums'', ''parks''] 5)"
    by code_simp
  have c: "length (collect search_tool_stub ''New York'' [''museums'', ''parks''] 5) = 8"
    by code_simp
  show ?thesis
    using collector_dedupes_within_cap [of search_tool_stub "''New York''" "[''museums'', ''parks'']" 5]
      a b c by blast
qed

text \<open>
  Claim C3 as stated fails when a rating is NaN: every comparison with NaN is false,
  \<open>sorted\<close> leaves the ratings 1.0, NaN, 3.0 in this order, and the output is not
  descending.
\<close>

theorem nan_rating_counterexample:
  "map rating (run nan_tool ''X'' [''a''] 5) = [Num 1, NaN, Num 3] \<and>
   \<not> sorted_wrt (\<lambda>p q. float_le (rating q) (rating p)) (run nan_tool ''X'' [''a''] 5)"
  by code_simp

text \<open>
  Claim C3, as amended. When no rating of the search results is NaN, the output of
  \<open>ResearchAgent.run\<close> is sorted by rating in descending order; the places of any one
  rating \<open>r\<close> stand in the output in the order they have in the merged input (the output
  being cut at 20 places, they are an initial part of them); and the merged input lists
  the names in the order of their first occurrence in the search results.
\<close>

theorem collector_sorted_stable:
  fixes search_tool dest interests top_k_each
  defines "results \<equiv> collect search_tool dest interests top_k_each"
  defines "merged \<equiv> dict_values (dedupe results)"
  defines "out \<equiv> run search_tool dest interests top_k_each"
  assumes "\<forall>h \<in> set results. rating h \<noteq> NaN"
  shows "sorted_wrt (\<lambda>p q. float_le (rating q) (rating p)) out \<and>
         prefix (filter (\<lambda>p. rating p = r) out)
                (filter (\<lambda>p. rating p = r) (map compact_place merged)) \<and>
         map name merged = rev (remdups (rev (map name results)))"
proof -
  let ?ranked = "sorted_py rating True merged"
  have out: "out = map compact_place (take 20 ?ranked)"
    by (simp add: out_def merged_def results_def run_unfold)
  have nonan: "\<forall>x \<in> set merged. rating x \<noteq> NaN"
    using assms(4) by (auto simp: merged_def dict_values_def dest: dedupe_subset)
  have "sorted_wrt (\<lambda>a b. float_le (rating b) (rating a)) (take 20 ?ranked)"
    using sorted_py_descending [OF nonan] by (rule sorted_wrt_take)
  then have c1: "sorted_wrt (\<lambda>p q. float_le (rating q) (rating p)) out"
    by (simp add: out sorted_wrt_map)
  have "prefix (filter (\<lambda>h. rating h = r) (take 20 ?ranked)) (filter (\<lambda>h. rating h = r) ?ranked)"
    by (intro filter_mono_prefix take_is_prefix)
  then have "prefix (filter (\<lambda>h. rating h = r) (take 20 ?ranked)) (filter (\<lambda>h. rating h = r) merged)"
    by (simp only: sorted_py_stable [OF nonan])
  then have "prefix (map compact_place (filter (\<lambda>h. rating h = r) (take 20 ?ranked)))
                    (map compact_place (filter (\<lambda>h. rating h = r) merged))"
    by (rule map_mono_prefix)
  then have c2: "prefix (filter (\<lambda>p. rating p = r) out)
                (filter (\<lambda>p. rating p = r) (map compact_place merged))"
    by (simp add: out filter_map comp_def)
  have c3: "map name merged = rev (remdups (rev (map name results)))"
    by (simp add: merged_def names_dedupe keys_dedupe)
  show ?thesis using c1 c2 c3 by blast
qed

theorem collector_sorted_stable_witness:
  "NaN \<notin> set (map rating (collect search_tool_stub ''New York'' [''museums'', ''parks''] 5)) \<and>
   map rating (run search_tool_stub ''New York'' [''museums'', ''parks''] 5) =
     [Num (48 / 10), Num (46 / 10), Num (45 / 10), Num (44 / 10)] \<and>
   sorted_wrt (\<lambda>p q. float_le (rating q) (rating p))
     (run search_tool_stub ''New York'' [''museums'', ''parks''] 5)"
proof -
  have a: "\<forall>h \<in> set (collect search_tool_stub ''New York'' [''museums'', ''parks''] 5). rating h \<noteq> NaN"
    by code_simp
  have b: "map rating (run search_tool_stub ''New York'' [''museums'', ''parks''] 5) =
     [Num (48 / 10), Num (46 / 10), Num (45 / 10), Num (44 / 10)]"
    by code_simp
  have c: "NaN \<notin> set (map rating (collect search_tool_stub ''New York'' [''museums'', ''parks''] 5))"
    using a by auto
  show ?thesis
    using collector_sorted_stable [OF a] b c by blast
qed

section \<open>The reference example\<close>

lemma run_stub:
  "run search_tool_stub dest [''museums'', ''parks'', ''markets''] 5 =
     map compact_place [demo_places ! 1, demo_places ! 0, demo_places ! 2, demo_places ! 3]"
  by (simp add: run_def collect_def search_tool_stub_def slice_to_def demo_places_def
      dedupe_def sorted_py_def list_sort_def dict_values_def less_eq_prod_def)

text \<open>
  Claim C5. With the reference search stub and the interests museums, parks and markets,
  the ranked places are Central Park (4.8), City Museum (4.6), Grand Market (4.5) and
  Art Gallery (4.4); over a range of two days, the first day holds Central Park, City
  Museum and Grand Market in the three time blocks in this order, and the second day
  holds Art Gallery in the block 09:00-12:00 and nothing else.
\<close>

theorem demo_example:
  assumes "parse start = Inr sd" and "parse end' = Inr ed"
    and "valid_datetime sd" and "valid_datetime ed"
    and "utcoffset ed = utcoffset sd" and "wall ed = wall sd + day_us"
  shows "map (\<lambda>p. (name p, rating p))
           (run search_tool_stub dest [''museums'', ''parks'', ''markets''] 5) =
         [(''Central Park'', Num (48 / 10)), (''City Museum'', Num (46 / 10)),
          (''Grand Market'', Num (45 / 10)), (''Art Gallery'', Num (44 / 10))] \<and>
         build_itinerary parse
           (run search_tool_stub dest [''museums'', ''parks'', ''markets''] 5) start end' =
         Inr [(date_of sd,
                 [\<lparr>day = date_of sd, time_range = ''09:00-12:00'',
                    place = compact_place (demo_places ! 1)\<rparr>,
                  \<lparr>day = date_of sd, time_range = ''12:30-15:00'',
                    place = compact_place (demo_places ! 0)\<rparr>,
                  \<lparr>day = date_of sd, time_range = ''15:30-18:00'',
                    place = compact_place (demo_places ! 2)\<rparr>]),
              (date_of sd + 1,
                 [\<lparr>day = date_of sd + 1, time_range = ''09:00-12:00'',
                    place = compact_place (demo_places ! 3)\<rparr>])]"
proof -
  have le: "wall sd \<le> wall ed" using assms(6) day_us_pos by simp
  have two: "Suc (nat ((wall ed - wall sd) div day_us)) = 2"
    using assms(6) day_us_pos by simp
  have upt2: "[0 ..< 2] = [0, Suc 0]" by (simp add: upt_rec)
  show ?thesis
    unfolding build_itinerary_same_offset [OF assms(1,2,3,4,5) le] run_stub two
    by (simp add: plan_def upt2 day_items_def time_blocks_def demo_places_def compact_place_def)
qed

theorem demo_example_witness:
  "parse_example ''2025-12-10'' = Inr \<lparr>wall = 739594 * day_us, utcoffset = None\<rparr> \<and>
   parse_example ''2025-12-11'' = Inr \<lparr>wall = 739595 * day_us, utcoffset = None\<rparr> \<and>
   valid_datetime \<lparr>wall = 739594 * day_us, utcoffset = None\<rparr> \<and>
   valid_datetime \<lparr>wall = 739595 * day_us, utcoffset = None\<rparr> \<and>
   build_itinerary parse_example
     (run search_tool_stub ''New York'' [''museums'', ''parks'', ''markets''] 5)
     ''2025-12-10'' ''2025-12-11'' =
   Inr [(739595, [\<lparr>day = 739595, time_range = ''09:00-12:00'',
                      place = compact_place (demo_places ! 1)\<rparr>,
                    \<lparr>day = 739595, time_range = ''12:30-15:00'',
                      place = compact_place (demo_places ! 0)\<rparr>,
                    \<lparr>day = 739595, time_range = ''15:30-18:00'',
                      place = compact_place (demo_places ! 2)\<rparr>]),
        (739596, [\<lparr>day = 739596, time_range = ''09:00-12:00'',
                      place = compact_place (demo_places ! 3)\<rparr>])]"
proof -
  let ?sd = "\<lparr>wall = 739594 * day_us, utcoffset = None\<rparr>"
  let ?ed = "\<lparr>wall = 739595 * day_us, utcoffset = None\<rparr>"
  have a: "parse_example ''2025-12-10'' = Inr ?sd" by code_simp
  have b: "parse_example ''2025-12-11'' = Inr ?ed" by code_simp
  have va: "valid_datetime ?sd" by (simp add: valid_datetime_def day_us_def max_ordinal_def)
  have vb: "valid_datetime ?ed" by (simp add: valid_datetime_def day_us_def max_ordinal_def)
  have o: "utcoffset ?ed = utcoffset ?sd" by simp
  have e: "wall ?ed = wall ?sd + day_us" by simp
  have s: "date_of ?sd = 739595" by (simp add: date_of_def day_us_def)
  show ?thesis
    using demo_example
      [where parse = parse_example and start = "''2025-12-10''" and end' = "''2025-12-11''"
         and dest = "''New York''", OF a b va vb o e] a b va vb
    unfolding s by simp
qed

section \<open>Properties of the session store\<close>




















text \<open>
  \<open>d.update(other)\<close>, read key by key.
\<close>

lemma dict_update_lookup:
  "distinct (map fst other) \<Longrightarrow>
     map_of (dict_update d other) k =
       (case map_of other k of Some v \<Rightarrow> Some v | None \<Rightarrow> map_of d k)"
proof (induction other arbitrary: d)
  case Nil
  then show ?case by (simp add: dict_update_def)
next
  case (Cons x other)
  obtain k0 v0 where x: "x = (k0, v0)" by (cases x)
  have step: "dict_update d (x # other) = dict_update (dict_set k0 v0 d) other"
    by (simp add: dict_update_def x)
  have fresh_key: "map_of other k0 = None" and dist: "distinct (map fst other)"
    using Cons.prems x by (auto simp: map_of_eq_None_iff)
  have "map_of (dict_update d (x # other)) k = map_of (dict_update (dict_set k0 v0 d) other) k"
    by (simp only: step)
  also have "\<dots> = (case map_of other k of Some v \<Rightarrow> Some v
                     | None \<Rightarrow> map_of (dict_set k0 v0 d) k)"
    using dist by (rule Cons.IH)
  also have "\<dots> = (case map_of (x # other) k of Some v \<Rightarrow> Some v | None \<Rightarrow> map_of d k)"
  proof (cases "k = k0")
    case True
    then show ?thesis using fresh_key by (simp add: x map_of_dict_set split: option.splits)
  next
    case False
    then have "map_of (dict_set k0 v0 d) k = map_of d k"
      by (simp add: map_of_dict_set)
    then show ?thesis using False by (simp add: x split: option.splits)
  qed
  finally show ?case .
qed

text \<open>
  Claim C7, at a failing input. A trip record stores a reference to the preference
  dictionary of the session, not a copy. After the first call the only trip record
  shows diet = veg, in memory and in the file; after the second call on the same
  \<open>TravelBuddy\<close> the first trip record shows diet = vegan, in memory and in the file.
\<close>

theorem earlier_trip_preferences_overwritten:
  "map_option (map trip_preferences) (trips_in_memory after_first_trip ''u1'') =
     Some [[(KStr ''diet'', PyStr ''veg'')]] \<and>
   map_option (map trip_preferences) (trips_in_file after_first_trip ''u1'') =
     Some [[(''diet'', JStr ''veg'')]] \<and>
   map_option (map trip_preferences) (trips_in_memory after_second_trip ''u1'') =
     Some [[(KStr ''diet'', PyStr ''vegan'')], [(KStr ''diet'', PyStr ''vegan'')]] \<and>
   map_option (map trip_preferences) (trips_in_file after_second_trip ''u1'') =
     Some [[(''diet'', JStr ''vegan'')], [(''diet'', JStr ''vegan'')]]"
  by code_simp

text \<open>
  Claim C8. When \<open>plan_trip\<close> is called with preferences for a user who has a session,
  then afterwards (whether the call returns a plan or raises) every supplied key of the
  session's preferences holds the supplied value, and every other key holds what it
  held before.
\<close>

theorem plan_trip_merges_preferences:
  assumes "distinct (map fst prefs)"
    and "dict_get (data (memory tb)) user_id = Some s"
    and "plan_trip parse user_id dest start end' interests (Some prefs) now tb w = (r, tb', w')"
  shows "dict_get (dicts w' (preferences s)) k =
           (case dict_get prefs k of
              Some v \<Rightarrow> Some v
            | None \<Rightarrow> dict_get (dicts w (preferences s)) k)"
proof -
  have g: "get_session user_id (memory tb) w = (s, memory tb, w)"
    using assms(2) by (simp add: get_session_def)
  have "dicts w' (preferences s) = dict_update (dicts w (preferences s)) prefs"
    using assms(3)
    by (auto simp: plan_trip_def g Let_def save_session_def write_json_def
        split: sum.splits option.splits prod.splits)
  then show ?thesis
    unfolding dict_get_def using assms(1) by (simp add: dict_update_lookup)
qed

theorem plan_trip_merges_preferences_witness:
  "distinct (map fst [(KStr ''diet'', PyStr ''vegan'')]) \<and>
   dict_get (data (memory \<lparr>memory = sample_bank, research = search_tool_stub\<rparr>)) ''u1'' =
     Some \<lparr>preferences = 0, trips = 1\<rparr> \<and>
   (\<exists>r tb' w'.
      plan_trip parse_example ''u1'' ''New York'' ''2025-12-20'' ''2025-12-21'' [''parks'']
        (Some [(KStr ''diet'', PyStr ''vegan'')]) ''2025-12-02T08:00:00''
        \<lparr>memory = sample_bank, research = search_tool_stub\<rparr> sample_world = (r, tb', w') \<and>
      dict_get (dicts w' 0) (KStr ''diet'') = Some (PyStr ''vegan'') \<and>
      dict_get (dicts w' 0) (KStr ''max_walk_km'') = Some (PyInt 5))"
proof -
  let ?tb = "\<lparr>memory = sample_bank, research = search_tool_stub\<rparr>"
  let ?s = "\<lparr>preferences = 0 :: addr, trips = 1 :: addr\<rparr>"
  have d: "distinct (map fst [(KStr ''diet'', PyStr ''vegan'')])" by simp
  have e: "dict_get (data (memory ?tb)) ''u1'' = Some ?s"
    by (simp add: sample_bank_def dict_get_def)
  obtain r tb' w' where
    p: "plan_trip parse_example ''u1'' ''New York'' ''2025-12-20'' ''2025-12-21'' [''parks'']
          (Some [(KStr ''diet'', PyStr ''vegan'')]) ''2025-12-02T08:00:00'' ?tb sample_world
        = (r, tb', w')"
    by (metis prod_cases3)
  have "dict_get (dicts w' 0) (KStr ''diet'') = Some (PyStr ''vegan'')"
    using plan_trip_merges_preferences [OF d e p, of "KStr ''diet''"]
    by (simp add: dict_get_def)
  moreover have "dict_get (dicts w' 0) (KStr ''max_walk_km'') = Some (PyInt 5)"
    using plan_trip_merges_preferences [OF d e p, of "KStr ''max_walk_km''"]
    by (simp add: dict_get_def sample_world_def)
  ultimately show ?thesis using d e p by blast
qed




text \<open>
  Claim C10. \<open>MemoryBank.get_session\<close> leaves the store mapping and the files as they
  are and changes no allocated object. For a user id in the store it returns the stored
  session and changes nothing at all. For a user id that is not in the store it
  returns a new session with no preferences and no trips, made of new objects, and the
  user id is still not in the store.
\<close>

theorem get_session_read_only:
  assumes "get_session user_id bank w = (s, bank', w')"
  shows "bank' = bank \<and> files w' = files w \<and> stable w w' \<and>
         (\<forall>s0. dict_get (data bank) user_id = Some s0 \<longrightarrow> s = s0 \<and> w' = w) \<and>
         (dict_get (data bank) user_id = None \<longrightarrow>
            dump_session w' s = \<lparr>preferences = [], trips = []\<rparr> \<and>
            fresh w \<le> preferences s \<and> fresh w \<le> trips s \<and>
            dict_get (data bank') user_id = None)"
  using assms
  by (auto simp: get_session_def new_dict_def new_list_def stable_def dump_session_def
      split: option.splits)

theorem get_session_read_only_witness:
  "dict_get (data \<lparr>path = ''memory/memory_bank.json'', data = []\<rparr>) ''u1'' = None \<and>
   (\<exists>s w'. get_session ''u1'' \<lparr>path = ''memory/memory_bank.json'', data = []\<rparr> empty_world =
             (s, \<lparr>path = ''memory/memory_bank.json'', data = []\<rparr>, w') \<and>
           files w' = files empty_world \<and>
           dump_session w' s = \<lparr>preferences = [], trips = []\<rparr>)"
proof -
  let ?bank = "\<lparr>path = ''memory/memory_bank.json'', data = []\<rparr>"
  have absent: "dict_get (data ?bank) ''u1'' = None" by (simp add: dict_get_def)
  obtain s bank' w' where g: "get_session ''u1'' ?bank empty_world = (s, bank', w')"
    by (cases "get_session ''u1'' ?bank empty_world")
  show ?thesis using get_session_read_only [OF g] g absent by blast
qed

end
